theory Spec2Isabelle
  imports Complex_Main "HOL-Library.Sublist"
begin

section \<open>Strings of the interpreter\<close>

text \<open>
  A Python \<open>str\<close> is a sequence of Unicode code points; the replacement table of
  \<open>clean_address_text\<close> has keys beyond Latin-1 (U+1EBD, U+0129, U+0169), so a string is a
  list of code points and not a list of bytes. \<open>lit\<close> reads an ASCII literal of the source.
\<close>

type_synonym str = "nat list"

definition lit :: "string \<Rightarrow> str" where
  "lit cs = map of_char cs"

text \<open>
  The code points for which \<open>str.isspace\<close> holds. \<open>str.strip\<close>, \<open>str.split\<close> and the
  class \<open>\s\<close> of \<open>re\<close> (on a \<open>str\<close> pattern) all use this one table of the interpreter.
\<close>

definition isspace :: "nat \<Rightarrow> bool" where
  "isspace c \<longleftrightarrow>
     (9 \<le> c \<and> c \<le> 13) \<or> (28 \<le> c \<and> c \<le> 32) \<or> c = 133 \<or> c = 160 \<or> c = 5760 \<or>
     (8192 \<le> c \<and> c \<le> 8202) \<or> c = 8232 \<or> c = 8233 \<or> c = 8239 \<or> c = 8287 \<or> c = 12288"

definition rstrip :: "str \<Rightarrow> str" where
  "rstrip s = rev (dropWhile isspace (rev s))"

definition strip :: "str \<Rightarrow> str" where
  "strip s = dropWhile isspace (rstrip s)"

text \<open>
  \<open>s.replace(old, new)\<close>: the leftmost occurrences of \<open>old\<close>, not overlapping, are replaced.
  \<open>k\<close> counts the characters of a matched occurrence that are still to be skipped. With an
  empty \<open>old\<close> Python puts \<open>new\<close> before every character and at the end.
\<close>

fun replace_from :: "str \<Rightarrow> str \<Rightarrow> nat \<Rightarrow> str \<Rightarrow> str" where
  "replace_from old new k [] = []"
| "replace_from old new k (c # cs) =
     (if 0 < k then replace_from old new (k - 1) cs
      else if take (length old) (c # cs) = old
        then new @ replace_from old new (length old - 1) cs
      else c # replace_from old new 0 cs)"

definition str_replace :: "str \<Rightarrow> str \<Rightarrow> str \<Rightarrow> str" where
  "str_replace old new s =
     (if old = [] then new @ concat (map (\<lambda>c. c # new) s) else replace_from old new 0 s)"

text \<open>
  \<open>re.sub(r'\s+', ' ', s)\<close>: every maximal run of whitespace becomes one space. The flag
  says that the previous character belonged to a run already replaced.
\<close>

fun sub_spaces :: "bool \<Rightarrow> str \<Rightarrow> str" where
  "sub_spaces in_run [] = []"
| "sub_spaces in_run (c # cs) =
     (if isspace c then (if in_run then sub_spaces True cs else 32 # sub_spaces True cs)
      else c # sub_spaces False cs)"

section \<open>clean_address_text\<close>

text \<open>
  The character class of the first \<open>re.sub\<close>, in the order of the source:
  ? U+00BF ! U+00A1 @ # $ % ^ & * ( ) _ + = < > { } [ ] | \ / : ; " ' ` ~
\<close>

definition special_chars :: "nat list" where
  "special_chars =
     [63, 191, 33, 161, 64, 35, 36, 37, 94, 38, 42, 40, 41, 95, 43, 61, 60, 62, 123, 125,
      91, 93, 124, 92, 47, 58, 59, 34, 39, 96, 126]"

definition remove_special :: "str \<Rightarrow> str" where
  "remove_special s = filter (\<lambda>c. c \<notin> set special_chars) s"

text \<open>The dictionary \<open>replacements\<close>, in its order of insertion (accented letter, basic letters).\<close>

definition replacements :: "(str \<times> str) list" where
  "replacements =
     [([225], lit ''a''), ([233], lit ''e''), ([237], lit ''i''), ([243], lit ''o''), ([250], lit ''u''),
      ([224], lit ''a''), ([232], lit ''e''), ([236], lit ''i''), ([242], lit ''o''), ([249], lit ''u''),
      ([228], lit ''a''), ([235], lit ''e''), ([239], lit ''i''), ([246], lit ''o''), ([252], lit ''u''),
      ([226], lit ''a''), ([234], lit ''e''), ([238], lit ''i''), ([244], lit ''o''), ([251], lit ''u''),
      ([227], lit ''a''), ([7869], lit ''e''), ([297], lit ''i''), ([245], lit ''o''), ([361], lit ''u''),
      ([241], lit ''n''), ([231], lit ''c''), ([223], lit ''ss'')]"

definition apply_replacements :: "(str \<times> str) list \<Rightarrow> str \<Rightarrow> str" where
  "apply_replacements rs s = foldl (\<lambda>cleaned (accented, basic). str_replace accented basic cleaned) s rs"

definition clean_address_text :: "str \<Rightarrow> bool \<Rightarrow> str" where
  "clean_address_text text aggressive =
     (if text = [] then text
      else let cleaned = (if aggressive then apply_replacements replacements (remove_special text)
                          else remove_special text)
           in strip (sub_spaces False cleaned))"

section \<open>Values, exceptions and the tables of the interpreter\<close>

text \<open>
  A Python \<open>float\<close>: the finite ones are read as the real number they denote (the code
  compares them, tests them for zero, and divides one by ten), and the three that denote no
  real number are kept apart, since \<open>bool(nan)\<close> is true.
\<close>

datatype pyfloat = Finite real | PosInf | NegInf | NaN

text \<open>The values a record of the batch or an answer of the provider may hold.\<close>

datatype pyval =
    PNone
  | PBool bool
  | PInt int
  | PFloat pyfloat
  | PStr str
  | PList "pyval list"
  | PDict "(str \<times> pyval) list"

text \<open>
  An exception below \<open>Exception\<close>, the ones that \<open>except Exception\<close> catches.
  \<open>Raised m\<close> is one raised outside the interpreter, by the provider's client or by the
  operating system, \<open>m\<close> being its \<open>str(e)\<close>; the others are raised by the interpreter: a
  missing key, a missing attribute of a value, an operation (named by the first argument)
  that the type of a value does not allow, a value that an operation refuses, and a number
  that an operation cannot hold.
\<close>

datatype exn =
    Raised str
  | KeyError str
  | AttributeError pyval str
  | TypeError str pyval
  | ValueError str pyval
  | OverflowError str pyval

text \<open>
  What the code takes from the interpreter and not from the repository. The functions below
  are written out for ASCII; beyond ASCII they ask these tables: the digits of \<open>\d\<close>, the word
  characters of \<open>\w\<close>, the case mappings of \<open>str\<close> (on a whole string, since they depend on
  context and may change its length), the matching of a pattern character under
  \<open>re.IGNORECASE\<close>, the parser of \<open>float(str)\<close>, and the wording of the interpreter's own
  exception messages.
\<close>

record interp =
  it_isdigit :: "nat \<Rightarrow> bool"
  it_isword :: "nat \<Rightarrow> bool"
  it_lower :: "str \<Rightarrow> str"
  it_upper :: "str \<Rightarrow> str"
  it_title :: "str \<Rightarrow> str"
  it_capitalize :: "str \<Rightarrow> str"
  it_ignorecase :: "nat \<Rightarrow> nat \<Rightarrow> bool"
  it_float :: "str \<Rightarrow> pyfloat option"
  it_message :: "exn \<Rightarrow> str"

definition exn_str :: "interp \<Rightarrow> exn \<Rightarrow> str" where
  "exn_str I e = (case e of Raised m \<Rightarrow> m | _ \<Rightarrow> it_message I e)"

definition is_ascii :: "str \<Rightarrow> bool" where
  "is_ascii s = list_all (\<lambda>c. c < 128) s"

definition ascii_upper_letter :: "nat \<Rightarrow> bool" where
  "ascii_upper_letter c \<longleftrightarrow> 65 \<le> c \<and> c \<le> 90"

definition ascii_lower_letter :: "nat \<Rightarrow> bool" where
  "ascii_lower_letter c \<longleftrightarrow> 97 \<le> c \<and> c \<le> 122"

definition ascii_letter :: "nat \<Rightarrow> bool" where
  "ascii_letter c \<longleftrightarrow> ascii_upper_letter c \<or> ascii_lower_letter c"

definition ascii_tolower :: "nat \<Rightarrow> nat" where
  "ascii_tolower c = (if ascii_upper_letter c then c + 32 else c)"

definition ascii_toupper :: "nat \<Rightarrow> nat" where
  "ascii_toupper c = (if ascii_lower_letter c then c - 32 else c)"

definition isdigit :: "interp \<Rightarrow> nat \<Rightarrow> bool" where
  "isdigit I c = (if c < 128 then 48 \<le> c \<and> c \<le> 57 else it_isdigit I c)"

definition isword :: "interp \<Rightarrow> nat \<Rightarrow> bool" where
  "isword I c =
     (if c < 128 then ascii_letter c \<or> (48 \<le> c \<and> c \<le> 57) \<or> c = 95 else it_isword I c)"

definition lower :: "interp \<Rightarrow> str \<Rightarrow> str" where
  "lower I s = (if is_ascii s then map ascii_tolower s else it_lower I s)"

definition upper :: "interp \<Rightarrow> str \<Rightarrow> str" where
  "upper I s = (if is_ascii s then map ascii_toupper s else it_upper I s)"

definition capitalize :: "interp \<Rightarrow> str \<Rightarrow> str" where
  "capitalize I s =
     (if is_ascii s
      then (case s of [] \<Rightarrow> [] | c # cs \<Rightarrow> ascii_toupper c # map ascii_tolower cs)
      else it_capitalize I s)"

text \<open>
  \<open>str.title\<close>: a cased character is put in upper case after an uncased one (or at the
  start) and in lower case after a cased one.
\<close>

fun title_from :: "bool \<Rightarrow> str \<Rightarrow> str" where
  "title_from previous_is_cased [] = []"
| "title_from previous_is_cased (c # cs) =
     (if previous_is_cased then ascii_tolower c else ascii_toupper c) # title_from (ascii_letter c) cs"

definition title :: "interp \<Rightarrow> str \<Rightarrow> str" where
  "title I s = (if is_ascii s then title_from False s else it_title I s)"

text \<open>\<open>s.split()\<close>: the maximal runs of characters that are not whitespace.\<close>

fun split_from :: "str \<Rightarrow> str \<Rightarrow> str list" where
  "split_from word [] = (if word = [] then [] else [word])"
| "split_from word (c # cs) =
     (if isspace c then (if word = [] then split_from [] cs else word # split_from [] cs)
      else split_from (word @ [c]) cs)"

definition split :: "str \<Rightarrow> str list" where
  "split s = split_from [] s"

text \<open>\<open>s.split(sep)\<close> for a separator of one character: empty fields are kept.\<close>

fun split_on_from :: "nat \<Rightarrow> str \<Rightarrow> str \<Rightarrow> str list" where
  "split_on_from sep field [] = [field]"
| "split_on_from sep field (c # cs) =
     (if c = sep then field # split_on_from sep [] cs else split_on_from sep (field @ [c]) cs)"

definition split_on :: "nat \<Rightarrow> str \<Rightarrow> str list" where
  "split_on sep s = split_on_from sep [] s"

fun join :: "str \<Rightarrow> str list \<Rightarrow> str" where
  "join sep [] = []"
| "join sep [w] = w"
| "join sep (w # ws) = w @ sep @ join sep ws"

text \<open>\<open>sub in s\<close> on strings.\<close>

fun contains :: "str \<Rightarrow> str \<Rightarrow> bool" where
  "contains sub [] = (sub = [])"
| "contains sub (c # cs) = (take (length sub) (c # cs) = sub \<or> contains sub cs)"

section \<open>Regular expressions of the source\<close>

text \<open>
  \<open>\b\<close> at a position: exactly one of the characters before and after it is a word
  character, the ends of the string counting as none.
\<close>

definition boundary :: "interp \<Rightarrow> nat option \<Rightarrow> nat option \<Rightarrow> bool" where
  "boundary I prev nxt \<longleftrightarrow>
     (case prev of None \<Rightarrow> False | Some c \<Rightarrow> isword I c) \<noteq>
     (case nxt of None \<Rightarrow> False | Some c \<Rightarrow> isword I c)"

text \<open>A literal character of a pattern against a character of the text, under \<open>re.IGNORECASE\<close>.\<close>

definition ignorecase_eq :: "interp \<Rightarrow> nat \<Rightarrow> nat \<Rightarrow> bool" where
  "ignorecase_eq I p c = (if c < 128 \<and> p < 128 then ascii_tolower p = ascii_tolower c else it_ignorecase I p c)"

definition first_char :: "str \<Rightarrow> nat option" where
  "first_char s = (case s of [] \<Rightarrow> None | c # _ \<Rightarrow> Some c)"

text \<open>
  The pattern \<open>\b\<close> + \<open>re.escape(abbrev)\<close> + \<open>\b\<close> at the head of \<open>s\<close>, the text before it
  ending in \<open>prev\<close>.
\<close>

definition match_word :: "interp \<Rightarrow> str \<Rightarrow> nat option \<Rightarrow> str \<Rightarrow> bool" where
  "match_word I abbrev prev s \<longleftrightarrow>
     length abbrev \<le> length s \<and>
     boundary I prev (first_char s) \<and>
     list_all2 (ignorecase_eq I) abbrev (take (length abbrev) s) \<and>
     boundary I (if abbrev = [] then prev else Some (s ! (length abbrev - 1)))
                (first_char (drop (length abbrev) s))"

text \<open>
  \<open>re.sub(r'\b' + re.escape(abbrev) + r'\b', full_word, s, flags=re.IGNORECASE)\<close>. The
  matches are taken from the left and do not overlap; \<open>k\<close> counts the characters of the last
  match still to be passed. The replacement has no backslash, so it stands for itself.
\<close>

fun sub_word :: "interp \<Rightarrow> str \<Rightarrow> str \<Rightarrow> nat option \<Rightarrow> nat \<Rightarrow> str \<Rightarrow> str" where
  "sub_word I abbrev full_word prev k [] =
     (if k = 0 \<and> abbrev = [] \<and> match_word I abbrev prev [] then full_word else [])"
| "sub_word I abbrev full_word prev k (c # cs) =
     (if 0 < k then sub_word I abbrev full_word (Some c) (k - 1) cs
      else if match_word I abbrev prev (c # cs) then
        (if abbrev = [] then full_word @ c # sub_word I abbrev full_word (Some c) 0 cs
         else full_word @ sub_word I abbrev full_word (Some c) (length abbrev - 1) cs)
      else c # sub_word I abbrev full_word (Some c) 0 cs)"

definition re_sub_word :: "interp \<Rightarrow> str \<Rightarrow> str \<Rightarrow> str \<Rightarrow> str" where
  "re_sub_word I abbrev full_word s = sub_word I abbrev full_word None 0 s"

text \<open>
  The patterns of the postal codes, as syntax trees. \<open>matches\<close> lists the positions where a
  match that starts at position \<open>i\<close> of \<open>s\<close> may end, in the order in which the backtracking
  matcher of \<open>re\<close> tries them; \<open>re.match\<close> and \<open>re.search\<close> are only asked whether there is one.
\<close>

datatype char_class = Digit | Space | Upper | UpperOrDigit | Literal nat

datatype regex =
    Eps
  | Atom char_class
  | Seq regex regex
  | Alt regex regex
  | Opt regex
  | WordBoundary
  | StartOfString
  | EndOfString

definition in_class :: "interp \<Rightarrow> char_class \<Rightarrow> nat \<Rightarrow> bool" where
  "in_class I k c =
     (case k of
        Digit \<Rightarrow> isdigit I c
      | Space \<Rightarrow> isspace c
      | Upper \<Rightarrow> ascii_upper_letter c
      | UpperOrDigit \<Rightarrow> ascii_upper_letter c \<or> isdigit I c
      | Literal l \<Rightarrow> c = l)"

definition char_at :: "str \<Rightarrow> nat \<Rightarrow> nat option" where
  "char_at s i = (if i < length s then Some (s ! i) else None)"

fun matches :: "interp \<Rightarrow> regex \<Rightarrow> str \<Rightarrow> nat \<Rightarrow> nat list" where
  "matches I Eps s i = [i]"
| "matches I (Atom k) s i =
     (case char_at s i of None \<Rightarrow> [] | Some c \<Rightarrow> if in_class I k c then [i + 1] else [])"
| "matches I (Seq a b) s i = concat (map (matches I b s) (matches I a s i))"
| "matches I (Alt a b) s i = matches I a s i @ matches I b s i"
| "matches I (Opt a) s i = matches I a s i @ [i]"
| "matches I WordBoundary s i =
     (if boundary I (if i = 0 then None else char_at s (i - 1)) (char_at s i) then [i] else [])"
| "matches I StartOfString s i = (if i = 0 then [i] else [])"
| "matches I EndOfString s i =
     (if i = length s \<or> (i + 1 = length s \<and> s ! i = 10) then [i] else [])"

text \<open>\<open>r{n}\<close> and \<open>r{1,2}\<close>.\<close>

primrec exactly :: "nat \<Rightarrow> regex \<Rightarrow> regex" where
  "exactly 0 r = Eps"
| "exactly (Suc n) r = Seq r (exactly n r)"

definition one_or_two :: "regex \<Rightarrow> regex" where
  "one_or_two r = Seq r (Opt r)"

fun seqs :: "regex list \<Rightarrow> regex" where
  "seqs [] = Eps"
| "seqs (r # rs) = Seq r (seqs rs)"

definition re_match :: "interp \<Rightarrow> regex \<Rightarrow> str \<Rightarrow> bool" where
  "re_match I r s \<longleftrightarrow> matches I r s 0 \<noteq> []"

definition re_search :: "interp \<Rightarrow> regex \<Rightarrow> str \<Rightarrow> bool" where
  "re_search I r s \<longleftrightarrow> list_ex (\<lambda>i. matches I r s i \<noteq> []) [0 ..< length s + 1]"

section \<open>normalize_address_format\<close>

text \<open>The dictionary \<open>common_abbreviations\<close>, in its order of insertion.\<close>

definition common_abbreviations :: "(str \<times> str list) list" where
  "common_abbreviations =
     [(lit ''calle'', [lit ''c/'', lit ''c'' @ [92], lit ''cl'', lit ''cl.'', lit ''call'']),
      (lit ''avenida'', [lit ''av'', lit ''av.'', lit ''avda'', lit ''avda.'', lit ''aven'']),
      (lit ''plaza'', [lit ''pl'', lit ''pl.'', lit ''plz'']),
      (lit ''paseo'', [lit ''ps'', lit ''ps.'', lit ''pso'']),
      (lit ''carrera'', [lit ''cr'', lit ''cr.'', lit ''cra'', lit ''cra.'']),
      (lit ''diagonal'', [lit ''dg'', lit ''dg.'', lit ''diag'']),
      (lit ''transversal'', [lit ''tv'', lit ''tv.'', lit ''trans'']),
      (lit ''street'', [lit ''st'', lit ''st.'', lit ''str'', lit ''str.'']),
      (lit ''avenue'', [lit ''ave'', lit ''ave.'', lit ''av'']),
      (lit ''boulevard'', [lit ''blvd'', lit ''blvd.'', lit ''boul'']),
      (lit ''road'', [lit ''rd'', lit ''rd.'']),
      (lit ''drive'', [lit ''dr'', lit ''dr.'']),
      (lit ''lane'', [lit ''ln'', lit ''ln.'']),
      (lit ''court'', [lit ''ct'', lit ''ct.'']),
      (lit ''place'', [lit ''pl'', lit ''pl.''])]"

definition spanish_words :: "str list" where
  "spanish_words =
     [lit ''calle'', lit ''avenida'', lit ''plaza'', lit ''paseo'', lit ''carrera'',
      lit ''diagonal'', lit ''transversal'']"

definition english_words :: "str list" where
  "english_words =
     [lit ''street'', lit ''avenue'', lit ''boulevard'', lit ''road'', lit ''drive'', lit ''lane'',
      lit ''court'', lit ''place'']"

text \<open>The inner loop: \<open>for abbrev in abbreviations: normalized = re.sub(...)\<close>.\<close>

definition expand_abbreviations :: "interp \<Rightarrow> str \<Rightarrow> str list \<Rightarrow> str \<Rightarrow> str" where
  "expand_abbreviations I full_word abbreviations normalized =
     foldl (\<lambda>n abbrev. re_sub_word I abbrev full_word n) normalized abbreviations"

definition normalize_step :: "interp \<Rightarrow> str \<Rightarrow> str \<Rightarrow> str \<times> str list \<Rightarrow> str" where
  "normalize_step I target_language normalized entry =
     (case entry of (full_word, abbreviations) \<Rightarrow>
        if target_language = lit ''es'' \<and> full_word \<in> set spanish_words
          then expand_abbreviations I full_word abbreviations normalized
        else if target_language = lit ''en'' \<and> full_word \<in> set english_words
          then expand_abbreviations I full_word abbreviations normalized
        else normalized)"

definition normalize_address_format :: "interp \<Rightarrow> str \<Rightarrow> str \<Rightarrow> str" where
  "normalize_address_format I address target_language =
     (if address = [] then address
      else let normalized = strip (lower I address);
               normalized = foldl (normalize_step I target_language) normalized common_abbreviations;
               normalized = join (lit '' '') (map (capitalize I) (split normalized))
           in strip (sub_spaces False normalized))"

section \<open>detect_incomplete_address\<close>

text \<open>
  The report, and its dictionary \<open>components_found\<close>, whose keys \<open>street_number\<close>,
  \<open>street_name\<close>, \<open>city\<close> and \<open>postal_code\<close> are the fields of \<open>found\<close> (named as
  the local variables of the source that fill them). The report for an empty address has no
  \<open>components_found\<close>.
\<close>

record found =
  has_street_number :: bool
  has_street_name :: bool
  has_city :: bool
  has_postal_code :: bool

record completeness =
  is_complete :: bool
  missing_components :: "str list"
  confidence :: real
  components_found :: "found option"

text \<open>\<open>re.search(r'\d+', s)\<close> finds a match exactly when \<open>s\<close> has a digit.\<close>

definition has_digits :: "interp \<Rightarrow> str \<Rightarrow> bool" where
  "has_digits I s = list_ex (isdigit I) s"

definition street_keywords :: "str list" where
  "street_keywords =
     [lit ''calle'', lit ''avenida'', lit ''street'', lit ''avenue'', lit ''road'', lit ''drive'',
      lit ''c/'', lit ''av'', lit ''st'', lit ''rd'']"

text \<open>\<open>\b\d{5}(-\d{4})?\b|\b[A-Z]\d[A-Z]\s?\d[A-Z]\d\b\<close>\<close>

definition postal_shape :: regex where
  "postal_shape =
     Alt (seqs [WordBoundary, exactly 5 (Atom Digit),
                Opt (Seq (Atom (Literal 45)) (exactly 4 (Atom Digit))), WordBoundary])
         (seqs [WordBoundary, Atom Upper, Atom Digit, Atom Upper, Opt (Atom Space),
                Atom Digit, Atom Upper, Atom Digit, WordBoundary])"

definition detect_incomplete_address :: "interp \<Rightarrow> str \<Rightarrow> completeness" where
  "detect_incomplete_address I address =
     (if address = []
      then \<lparr>is_complete = False, missing_components = [lit ''address''], confidence = 0,
            components_found = None\<rparr>
      else
        let address_lower = lower I address;
            street_number = has_digits I address;
            street_name = list_ex (\<lambda>k. contains k address_lower) street_keywords;
            city = (1 < length (split_on 44 address));
            postal_code = re_search I postal_shape address;
            missing_components =
              (if \<not> street_number then [lit ''street_number''] else []) @
              (if \<not> street_name then [lit ''street_name''] else []) @
              (if \<not> city then [lit ''city''] else []) @
              (if \<not> postal_code then [lit ''postal_code''] else []);
            total_components = 4;
            present_components = total_components - int (length missing_components)
        in \<lparr>is_complete = (length missing_components = 0),
            missing_components = missing_components,
            confidence = real_of_int present_components / real_of_int total_components,
            components_found = Some \<lparr>has_street_number = street_number,
              has_street_name = street_name, has_city = city, has_postal_code = postal_code\<rparr>\<rparr>)"

section \<open>suggest_address_corrections\<close>

text \<open>The dictionary \<open>common_corrections\<close>, in its order of insertion; 237 is i with acute.\<close>

definition common_corrections :: "(str \<times> str) list" where
  "common_corrections =
     [(lit ''callle'', lit ''calle''),
      (lit ''aven'' @ [237] @ lit ''da'', lit ''avenida''),
      (lit ''avendia'', lit ''avenida''),
      (lit ''plasa'', lit ''plaza''),
      (lit ''carrrera'', lit ''carrera''),
      (lit ''stret'', lit ''street''),
      (lit ''streat'', lit ''street''),
      (lit ''avenu'', lit ''avenue''),
      (lit ''boulvard'', lit ''boulevard'')]"

text \<open>The loop over the corrections: the state is \<open>corrected\<close> and the list \<open>suggestions\<close>.\<close>

definition correction_step :: "interp \<Rightarrow> str \<times> str list \<Rightarrow> str \<times> str \<Rightarrow> str \<times> str list" where
  "correction_step I state entry =
     (case (state, entry) of ((corrected, suggestions), (error, correction)) \<Rightarrow>
        if contains error corrected
        then (let corrected = str_replace error correction corrected
              in (corrected, suggestions @ [title I corrected]))
        else (corrected, suggestions))"

text \<open>\<open>xs[:n]\<close>: a negative \<open>n\<close> counts from the end.\<close>

definition slice_to :: "int \<Rightarrow> 'a list \<Rightarrow> 'a list" where
  "slice_to n xs = (if 0 \<le> n then take (nat n) xs else take (length xs - nat (- n)) xs)"

definition suggest_address_corrections :: "interp \<Rightarrow> str \<Rightarrow> int \<Rightarrow> str list" where
  "suggest_address_corrections I address max_suggestions =
     (if address = [] then []
      else
        let suggestions = snd (foldl (correction_step I) (lower I address, []) common_corrections);
            normalized = normalize_address_format I address (lit ''es'');
            suggestions = (if normalized \<noteq> address \<and> normalized \<notin> set suggestions
                           then suggestions @ [normalized] else suggestions)
        in slice_to max_suggestions suggestions)"

section \<open>_merge_address_data\<close>

text \<open>\<open>re.search(r'\d+', s).group()\<close>: the first maximal run of digits.\<close>

definition first_digits :: "interp \<Rightarrow> str \<Rightarrow> str" where
  "first_digits I s = takeWhile (isdigit I) (dropWhile (\<lambda>c. \<not> isdigit I c) s)"

definition merge_address_data :: "interp \<Rightarrow> str \<Rightarrow> str \<Rightarrow> str" where
  "merge_address_data I partial_address full_address =
     (if strip partial_address = [] then full_address
      else
        let partial_words = set (split (lower I partial_address));
            full_words = set (split (lower I full_address));
            unique_partial_words = partial_words - full_words
        in if unique_partial_words \<noteq> {} \<and> has_digits I partial_address \<and> \<not> has_digits I full_address
           then first_digits I partial_address @ lit '' '' @ full_address
           else full_address)"

section \<open>Dictionaries and operations on values of any type\<close>

text \<open>
  A \<open>dict\<close> keeps its keys in the order of their first insertion: assigning to a key that
  is there replaces the value in place, assigning to a new key appends.
\<close>

type_synonym dict = "(str \<times> pyval) list"

fun dict_set :: "dict \<Rightarrow> str \<Rightarrow> pyval \<Rightarrow> dict" where
  "dict_set [] k v = [(k, v)]"
| "dict_set ((k', v') # d) k v = (if k' = k then (k', v) # d else (k', v') # dict_set d k v)"

definition dict_get :: "dict \<Rightarrow> str \<Rightarrow> pyval option" where
  "dict_get d k = map_of d k"

definition dict_update :: "dict \<Rightarrow> dict \<Rightarrow> dict" where
  "dict_update d other = foldl (\<lambda>d (k, v). dict_set d k v) d other"

definition get_or :: "dict \<Rightarrow> str \<Rightarrow> pyval \<Rightarrow> pyval" where
  "get_or d k dflt = (case dict_get d k of None \<Rightarrow> dflt | Some v \<Rightarrow> v)"

fun truthy :: "pyval \<Rightarrow> bool" where
  "truthy PNone = False"
| "truthy (PBool b) = b"
| "truthy (PInt i) = (i \<noteq> 0)"
| "truthy (PFloat f) = (f \<noteq> Finite 0)"
| "truthy (PStr s) = (s \<noteq> [])"
| "truthy (PList xs) = (xs \<noteq> [])"
| "truthy (PDict d) = (d \<noteq> [])"

text \<open>\<open>obj[key]\<close>, \<open>obj.get(key, default)\<close> and \<open>key in obj\<close> for a key that is a string.\<close>

definition getitem :: "pyval \<Rightarrow> str \<Rightarrow> exn + pyval" where
  "getitem obj key =
     (case obj of
        PDict d \<Rightarrow> (case dict_get d key of None \<Rightarrow> Inl (KeyError key) | Some v \<Rightarrow> Inr v)
      | _ \<Rightarrow> Inl (TypeError (lit ''[]'') obj))"

definition get_method :: "pyval \<Rightarrow> str \<Rightarrow> pyval \<Rightarrow> exn + pyval" where
  "get_method obj key dflt =
     (case obj of
        PDict d \<Rightarrow> Inr (get_or d key dflt)
      | _ \<Rightarrow> Inl (AttributeError obj (lit ''get'')))"

definition contains_item :: "str \<Rightarrow> pyval \<Rightarrow> exn + bool" where
  "contains_item key obj =
     (case obj of
        PDict d \<Rightarrow> Inr (dict_get d key \<noteq> None)
      | PStr s \<Rightarrow> Inr (contains key s)
      | PList xs \<Rightarrow> Inr (PStr key \<in> set xs)
      | _ \<Rightarrow> Inl (TypeError (lit ''in'') obj))"

text \<open>
  An integer becomes the \<open>float\<close> nearest to it, halves going to the even one. The largest
  \<open>float\<close> is \<open>2^1024 - 2^971\<close>, so from \<open>2^1024 - 2^970\<close> on there is none, and the
  conversion raises \<open>OverflowError\<close>.
\<close>

definition fits_float :: "int \<Rightarrow> bool" where
  "fits_float i \<longleftrightarrow> \<bar>i\<bar> < 2 ^ 1024 - 2 ^ 970"

text \<open>
  \<open>float(x)\<close>. An integer that has a \<open>float\<close> is read as the real number it is.
\<close>

definition to_float :: "interp \<Rightarrow> pyval \<Rightarrow> exn + pyfloat" where
  "to_float I x =
     (case x of
        PFloat f \<Rightarrow> Inr f
      | PInt i \<Rightarrow> if fits_float i then Inr (Finite (real_of_int i))
                  else Inl (OverflowError (lit ''float'') x)
      | PBool b \<Rightarrow> Inr (Finite (if b then 1 else 0))
      | PStr s \<Rightarrow> (case it_float I s of None \<Rightarrow> Inl (ValueError (lit ''float'') x) | Some f \<Rightarrow> Inr f)
      | _ \<Rightarrow> Inl (TypeError (lit ''float'') x))"

text \<open>\<open>x / 10.0\<close>, which converts an integer \<open>x\<close> to a \<open>float\<close> first.\<close>

definition div_by_ten :: "pyval \<Rightarrow> exn + pyfloat" where
  "div_by_ten x =
     (case x of
        PFloat (Finite r) \<Rightarrow> Inr (Finite (r / 10))
      | PFloat f \<Rightarrow> Inr f
      | PInt i \<Rightarrow> if fits_float i then Inr (Finite (real_of_int i / 10))
                  else Inl (OverflowError (lit ''/'') x)
      | PBool b \<Rightarrow> Inr (Finite (if b then 1 / 10 else 0))
      | _ \<Rightarrow> Inl (TypeError (lit ''/'') x))"

fun float_less :: "pyfloat \<Rightarrow> pyfloat \<Rightarrow> bool" where
  "float_less (Finite a) (Finite b) = (a < b)"
| "float_less NaN _ = False"
| "float_less _ NaN = False"
| "float_less NegInf b = (b \<noteq> NegInf)"
| "float_less a PosInf = (a \<noteq> PosInf)"
| "float_less _ _ = False"

text \<open>\<open>min(a, b)\<close> gives \<open>b\<close> when \<open>b < a\<close>, and \<open>a\<close> otherwise.\<close>

definition float_min :: "pyfloat \<Rightarrow> pyfloat \<Rightarrow> pyfloat" where
  "float_min a b = (if float_less b a then b else a)"

section \<open>Exceptions and the outside world\<close>

text \<open>
  A computation runs in a state, and either raises or returns; the state it leaves is kept in
  both cases, as an assignment made before a \<open>raise\<close> is.
\<close>

type_synonym ('a, 's) comp = "'s \<Rightarrow> (exn + 'a) \<times> 's"

definition ret :: "'a \<Rightarrow> ('a, 's) comp" where
  "ret v s = (Inr v, s)"

definition lift :: "exn + 'a \<Rightarrow> ('a, 's) comp" where
  "lift m s = (m, s)"

definition seq :: "('a, 's) comp \<Rightarrow> ('a \<Rightarrow> ('b, 's) comp) \<Rightarrow> ('b, 's) comp" where
  "seq m f s = (case m s of (Inl e, s') \<Rightarrow> (Inl e, s') | (Inr v, s') \<Rightarrow> f v s')"

definition and_then :: "exn + 'a \<Rightarrow> ('a \<Rightarrow> exn + 'b) \<Rightarrow> exn + 'b" where
  "and_then m f = (case m of Inl e \<Rightarrow> Inl e | Inr v \<Rightarrow> f v)"

text \<open>
  The client of the geocoding provider, the clock and the operating system. They are
  outside the program: an answer may depend on everything that happened before, so each call
  takes the state of the world and leaves a new one. \<open>geocode\<close> takes the query and the
  keyword \<open>language\<close> (if given); \<open>reverse_geocode\<close> takes latitude, longitude,
  \<open>language\<close> (if given) and whether \<open>no_annotations=1\<close> was passed; \<open>now\<close> is
  \<open>datetime.now().isoformat()\<close>; \<open>pause\<close> is the wait of the operating system for a
  number of seconds, in which time passes, and which the system may refuse (it does so for a
  wait that ends after the last moment of its clock).
\<close>

record 'w geocoder =
  geocode :: "pyval \<Rightarrow> str option \<Rightarrow> 'w \<Rightarrow> (exn + pyval list) \<times> 'w"
  reverse_geocode :: "pyval \<Rightarrow> pyval \<Rightarrow> str option \<Rightarrow> bool \<Rightarrow> 'w \<Rightarrow> (exn + pyval list) \<times> 'w"
  now :: "'w \<Rightarrow> str \<times> 'w"
  pause :: "real \<Rightarrow> 'w \<Rightarrow> (exn + unit) \<times> 'w"

section \<open>complete_address\<close>

definition initial_result :: "pyval \<Rightarrow> dict" where
  "initial_result partial_address =
     [(lit ''original_address'', partial_address),
      (lit ''completed_address'', partial_address),
      (lit ''method_used'', PStr (lit ''none'')),
      (lit ''confidence'', PFloat (Finite 0)),
      (lit ''components'', PDict []),
      (lit ''suggestions'', PList [])]"

text \<open>\<open>clean_address_text\<close> on a value that need not be a string.\<close>

definition clean_value :: "pyval \<Rightarrow> bool \<Rightarrow> exn + pyval" where
  "clean_value v aggressive =
     (if \<not> truthy v then Inr v
      else case v of PStr s \<Rightarrow> Inr (PStr (clean_address_text s aggressive))
                   | _ \<Rightarrow> Inl (TypeError (lit ''re.sub'') v))"

text \<open>The loop over \<open>components.items()\<close> that cleans the values that are strings.\<close>

definition clean_components :: "pyval \<Rightarrow> bool \<Rightarrow> exn + pyval" where
  "clean_components components aggressive =
     (case components of
        PDict d \<Rightarrow> Inr (PDict (map (\<lambda>(key, v). case v of
                         PStr s \<Rightarrow> (key, PStr (clean_address_text s aggressive))
                       | _ \<Rightarrow> (key, v)) d))
      | _ \<Rightarrow> Inl (AttributeError components (lit ''items'')))"

definition clean_candidate :: "bool \<Rightarrow> bool \<Rightarrow> pyval \<Rightarrow> pyval \<Rightarrow> exn + pyval \<times> pyval" where
  "clean_candidate clean_special_chars aggressive full_address components =
     (if clean_special_chars
      then and_then (clean_value full_address aggressive) (\<lambda>full_address.
           and_then (clean_components components aggressive) (\<lambda>components.
           Inr (full_address, components)))
      else Inr (full_address, components))"

text \<open>\<open>_merge_address_data\<close> on values that need not be strings.\<close>

definition merge_values :: "interp \<Rightarrow> pyval \<Rightarrow> pyval \<Rightarrow> exn + pyval" where
  "merge_values I partial_address full_address =
     (case partial_address of
        PStr p \<Rightarrow>
          if strip p = [] then Inr full_address
          else (case full_address of
                  PStr f \<Rightarrow> Inr (PStr (merge_address_data I p f))
                | _ \<Rightarrow> Inl (AttributeError full_address (lit ''lower'')))
      | _ \<Rightarrow> Inl (AttributeError partial_address (lit ''strip'')))"

text \<open>
  Strategy 1. \<open>Some result\<close> is the early \<open>return result\<close>; \<open>None\<close> means that the code goes
  on to strategy 2.
\<close>

definition reverse_strategy ::
  "interp \<Rightarrow> 'w geocoder \<Rightarrow> pyval \<Rightarrow> (pyval \<times> pyval) option \<Rightarrow> str \<Rightarrow> bool \<Rightarrow> bool \<Rightarrow> dict
     \<Rightarrow> (dict option, 'w) comp" where
  "reverse_strategy I G partial_address coordinates language clean_special_chars aggressive result =
     (case coordinates of
        None \<Rightarrow> ret None
      | Some (lat, lng) \<Rightarrow>
          seq (reverse_geocode G lat lng (Some language) clean_special_chars) (\<lambda>reverse_result.
            case reverse_result of
              [] \<Rightarrow> ret None
            | candidate # _ \<Rightarrow> lift (
                and_then (getitem candidate (lit ''formatted'')) (\<lambda>full_address.
                and_then (get_method candidate (lit ''components'') (PDict [])) (\<lambda>components.
                and_then (clean_candidate clean_special_chars aggressive full_address components)
                  (\<lambda>(full_address, components).
                and_then (merge_values I partial_address full_address) (\<lambda>merged_address.
                Inr (Some (dict_update result
                  [(lit ''completed_address'', merged_address),
                   (lit ''method_used'', PStr (lit ''reverse_geocoding'')),
                   (lit ''confidence'', PFloat (Finite (9 / 10))),
                   (lit ''components'', components)])))))))))"

text \<open>Strategy 2, for a \<open>partial_address\<close> whose \<open>strip\<close> has been taken: a string.\<close>

definition forward_strategy ::
  "'w geocoder \<Rightarrow> str \<Rightarrow> str \<Rightarrow> bool \<Rightarrow> bool \<Rightarrow> dict \<Rightarrow> (dict, 'w) comp" where
  "forward_strategy G partial_address language clean_special_chars aggressive result =
     (if strip partial_address \<noteq> [] then
        seq (geocode G (PStr partial_address) (Some language)) (\<lambda>geocode_result.
          case geocode_result of
            [] \<Rightarrow> ret result
          | candidate # _ \<Rightarrow> lift (
              and_then (getitem candidate (lit ''formatted'')) (\<lambda>full_address.
              and_then (get_method candidate (lit ''components'') (PDict [])) (\<lambda>components.
              and_then (get_method candidate (lit ''confidence'') (PInt 5)) (\<lambda>c.
              and_then (div_by_ten c) (\<lambda>confidence.
              and_then (clean_candidate clean_special_chars aggressive full_address components)
                (\<lambda>(full_address, components).
              and_then (getitem candidate (lit ''geometry'')) (\<lambda>geometry.
              and_then (getitem geometry (lit ''lat'')) (\<lambda>lat.
              and_then (getitem candidate (lit ''geometry'')) (\<lambda>geometry.
              and_then (getitem geometry (lit ''lng'')) (\<lambda>lng.
              Inr (dict_update result
                [(lit ''completed_address'', full_address),
                 (lit ''method_used'', PStr (lit ''forward_geocoding'')),
                 (lit ''confidence'', PFloat (float_min confidence (Finite (8 / 10)))),
                 (lit ''components'', components),
                 (lit ''coordinates'', PDict [(lit ''lat'', lat), (lit ''lng'', lng)])]))))))))))))
      else ret result)"

text \<open>The body of the \<open>try\<close>.\<close>

definition complete_try ::
  "interp \<Rightarrow> 'w geocoder \<Rightarrow> pyval \<Rightarrow> (pyval \<times> pyval) option \<Rightarrow> str \<Rightarrow> bool \<Rightarrow> bool
     \<Rightarrow> (dict, 'w) comp" where
  "complete_try I G partial_address coordinates language clean_special_chars aggressive =
     seq (reverse_strategy I G partial_address coordinates language clean_special_chars aggressive
            (initial_result partial_address)) (\<lambda>returned.
       case returned of
         Some result \<Rightarrow> ret result
       | None \<Rightarrow>
           (case partial_address of
              PStr p \<Rightarrow>
                seq (forward_strategy G p language clean_special_chars aggressive
                       (initial_result partial_address)) (\<lambda>result.
                  ret (dict_set result (lit ''suggestions'')
                         (PList (map PStr (suggest_address_corrections I p 3)))))
            | _ \<Rightarrow> lift (Inl (AttributeError partial_address (lit ''strip'')))))"

text \<open>
  No statement of the \<open>try\<close> assigns to \<open>result\<close> before the last one that can raise, so the
  handler finds \<open>result\<close> as it was initialised.
\<close>

definition complete_address ::
  "interp \<Rightarrow> 'w geocoder \<Rightarrow> pyval \<Rightarrow> (pyval \<times> pyval) option \<Rightarrow> str \<Rightarrow> bool \<Rightarrow> bool
     \<Rightarrow> 'w \<Rightarrow> dict \<times> 'w" where
  "complete_address I G partial_address coordinates language clean_special_chars aggressive w =
     (case complete_try I G partial_address coordinates language clean_special_chars aggressive w of
        (Inr result, w') \<Rightarrow> (result, w')
      | (Inl e, w') \<Rightarrow>
          (dict_set (dict_set (initial_result partial_address) (lit ''error'') (PStr (exn_str I e)))
             (lit ''method_used'') (PStr (lit ''error'')), w'))"

section \<open>validate_postal_code\<close>

text \<open>A raw literal of the source, given as its pieces between the backslashes.\<close>

definition raw :: "string list \<Rightarrow> str" where
  "raw pieces = join [92] (map lit pieces)"

text \<open>
  The dictionary \<open>postal_patterns\<close>, in its order of insertion: country, pattern as written,
  pattern as a syntax tree. The trees come first, one for each pattern that is written
  differently.
\<close>

definition five_digits :: regex where
  "five_digits = seqs [StartOfString, exactly 5 (Atom Digit), EndOfString]"

definition us_zip :: regex where
  "us_zip = seqs [StartOfString, exactly 5 (Atom Digit),
                  Opt (Seq (Atom (Literal 45)) (exactly 4 (Atom Digit))), EndOfString]"

definition canadian :: regex where
  "canadian = seqs [StartOfString, Atom Upper, Atom Digit, Atom Upper, Opt (Atom Space),
                    Atom Digit, Atom Upper, Atom Digit, EndOfString]"

definition british :: regex where
  "british = seqs [StartOfString, one_or_two (Atom Upper), Atom Digit, Opt (Atom UpperOrDigit),
                   Opt (Atom Space), Atom Digit, exactly 2 (Atom Upper), EndOfString]"

definition brazilian :: regex where
  "brazilian = seqs [StartOfString, exactly 5 (Atom Digit), Opt (Atom (Literal 45)),
                     exactly 3 (Atom Digit), EndOfString]"

definition argentine :: regex where
  "argentine =
     Alt (seqs [StartOfString, Opt (Atom Upper), exactly 4 (Atom Digit), exactly 3 (Atom Upper),
                EndOfString])
         (seqs [StartOfString, exactly 4 (Atom Digit), EndOfString])"

definition six_digits :: regex where
  "six_digits = seqs [StartOfString, exactly 6 (Atom Digit), EndOfString]"

definition postal_patterns :: "(str \<times> str \<times> regex) list" where
  "postal_patterns =
     [(lit ''ES'', raw [''^'', ''d{5}$''], five_digits),
      (lit ''US'', raw [''^'', ''d{5}(-'', ''d{4})?$''], us_zip),
      (lit ''CA'', raw [''^[A-Z]'', ''d[A-Z]'', ''s?'', ''d[A-Z]'', ''d$''], canadian),
      (lit ''MX'', raw [''^'', ''d{5}$''], five_digits),
      (lit ''GB'', raw [''^[A-Z]{1,2}'', ''d[A-Z'', ''d]?'', ''s?'', ''d[A-Z]{2}$''], british),
      (lit ''FR'', raw [''^'', ''d{5}$''], five_digits),
      (lit ''DE'', raw [''^'', ''d{5}$''], five_digits),
      (lit ''IT'', raw [''^'', ''d{5}$''], five_digits),
      (lit ''BR'', raw [''^'', ''d{5}-?'', ''d{3}$''], brazilian),
      (lit ''AR'', raw [''^[A-Z]?'', ''d{4}[A-Z]{3}$|^'', ''d{4}$''], argentine),
      (lit ''CO'', raw [''^'', ''d{6}$''], six_digits)]"

text \<open>
  \<open>country_code and country_code.upper() in postal_patterns\<close>: the entry of the table, if
  the condition holds.
\<close>

definition known_country :: "interp \<Rightarrow> pyval \<Rightarrow> exn + (str \<times> str \<times> regex) option" where
  "known_country I country_code =
     (if \<not> truthy country_code then Inr None
      else case country_code of
             PStr c \<Rightarrow> Inr (map_option (\<lambda>e. (upper I c, e)) (map_of postal_patterns (upper I c)))
           | _ \<Rightarrow> Inl (AttributeError country_code (lit ''upper'')))"

definition validate_postal_code :: "interp \<Rightarrow> pyval \<Rightarrow> pyval \<Rightarrow> exn + dict" where
  "validate_postal_code I postal_code country_code =
     (if \<not> truthy postal_code
      then Inr [(lit ''is_valid'', PBool False), (lit ''reason'', PStr (lit ''empty_postal_code''))]
      else case postal_code of
        PStr pc \<Rightarrow>
          (let postal_code_clean = upper I (strip pc) in
           and_then (known_country I country_code) (\<lambda>known.
             case known of
               Some (country, pattern, r) \<Rightarrow>
                 Inr [(lit ''is_valid'', PBool (re_match I r postal_code_clean)),
                      (lit ''country_code'', PStr country),
                      (lit ''pattern_used'', PStr pattern),
                      (lit ''cleaned_postal_code'', PStr postal_code_clean)]
             | None \<Rightarrow>
                 (case find (\<lambda>(country, pattern, r). re_match I r postal_code_clean) postal_patterns of
                    Some (country, pattern, r) \<Rightarrow>
                      Inr [(lit ''is_valid'', PBool True),
                           (lit ''possible_country'', PStr country),
                           (lit ''pattern_matched'', PStr pattern),
                           (lit ''cleaned_postal_code'', PStr postal_code_clean)]
                  | None \<Rightarrow>
                      Inr [(lit ''is_valid'', PBool False),
                           (lit ''reason'', PStr (lit ''no_pattern_match'')),
                           (lit ''cleaned_postal_code'', PStr postal_code_clean)])))
      | _ \<Rightarrow> Inl (AttributeError postal_code (lit ''strip'')))"

section \<open>enrich_location_data\<close>

text \<open>
  The state of the \<open>try\<close> is the dictionary \<open>enriched\<close> and the world: \<open>world\<close> runs a call
  of the provider or the clock, \<open>assign\<close> is \<open>enriched[key] = v\<close>, \<open>current\<close> reads the
  dictionary.
\<close>

definition world :: "('w \<Rightarrow> 'a \<times> 'w) \<Rightarrow> dict \<times> 'w \<Rightarrow> 'a \<times> dict \<times> 'w" where
  "world m s = (case s of (d, w) \<Rightarrow> (case m w of (r, w') \<Rightarrow> (r, d, w')))"

definition assign :: "str \<Rightarrow> pyval \<Rightarrow> (unit, dict \<times> 'w) comp" where
  "assign key v s = (case s of (d, w) \<Rightarrow> (Inr (), dict_set d key v, w))"

definition current :: "(dict, dict \<times> 'w) comp" where
  "current s = (Inr (fst s), s)"

text \<open>A dictionary display whose values are \<open>obj.get(key, default)\<close>, evaluated in order.\<close>

fun gets :: "pyval \<Rightarrow> (str \<times> str \<times> pyval) list \<Rightarrow> exn + dict" where
  "gets obj [] = Inr []"
| "gets obj ((name, key, dflt) # rest) =
     and_then (get_method obj key dflt) (\<lambda>v.
     and_then (gets obj rest) (\<lambda>d. Inr ((name, v) # d)))"

text \<open>
  \<open>lat, lng\<close> as the code resolves them: the argument, else the geometry of the first
  candidate of a forward lookup of \<open>address_data['address']\<close>, else \<open>None, None\<close>.
\<close>

definition resolve_coordinates ::
  "'w geocoder \<Rightarrow> dict \<Rightarrow> (pyval \<times> pyval) option \<Rightarrow> (pyval \<times> pyval, dict \<times> 'w) comp" where
  "resolve_coordinates G address_data coordinates =
     (case coordinates of
        Some (lat, lng) \<Rightarrow> ret (lat, lng)
      | None \<Rightarrow>
          if truthy (get_or address_data (lit ''address'') PNone) then
            seq (world (geocode G (get_or address_data (lit ''address'') PNone) None))
              (\<lambda>geocode_result.
                case geocode_result of
                  [] \<Rightarrow> ret (PNone, PNone)
                | candidate # _ \<Rightarrow>
                    seq (lift (and_then (getitem candidate (lit ''geometry''))
                                 (\<lambda>geometry. getitem geometry (lit ''lat'')))) (\<lambda>lat.
                    seq (lift (and_then (getitem candidate (lit ''geometry''))
                                 (\<lambda>geometry. getitem geometry (lit ''lng'')))) (\<lambda>lng.
                    seq (assign (lit ''coordinates'') (PDict [(lit ''lat'', lat), (lit ''lng'', lng)]))
                      (\<lambda>_. ret (lat, lng)))))
          else ret (PNone, PNone))"

text \<open>What is taken from the first candidate of the reverse lookup.\<close>

definition attach_place :: "pyval \<Rightarrow> bool \<Rightarrow> bool \<Rightarrow> (unit, dict \<times> 'w) comp" where
  "attach_place candidate clean_special_chars aggressive =
     seq (lift (get_method candidate (lit ''components'') (PDict []))) (\<lambda>components.
     seq (lift (get_method candidate (lit ''annotations'') (PDict []))) (\<lambda>annotations.
     seq (lift (if clean_special_chars then clean_components components aggressive
                else Inr components)) (\<lambda>components.
     seq (lift (get_method annotations (lit ''timezone'') (PDict []))) (\<lambda>timezone_info.
     seq (lift (gets timezone_info
            [(lit ''name'', lit ''name'', PStr []),
             (lit ''offset_sec'', lit ''offset_sec'', PInt 0),
             (lit ''offset_string'', lit ''offset_string'', PStr [])])) (\<lambda>timezone.
     seq (assign (lit ''timezone'') (PDict timezone)) (\<lambda>_.
     seq (lift (gets components
            [(lit ''country'', lit ''country'', PStr []),
             (lit ''country_code'', lit ''country_code'', PStr []),
             (lit ''state'', lit ''state'', PStr []),
             (lit ''state_code'', lit ''state_code'', PStr []),
             (lit ''province'', lit ''province'', PStr []),
             (lit ''county'', lit ''county'', PStr []),
             (lit ''city'', lit ''city'', PStr []),
             (lit ''town'', lit ''town'', PStr []),
             (lit ''village'', lit ''village'', PStr []),
             (lit ''suburb'', lit ''suburb'', PStr []),
             (lit ''neighbourhood'', lit ''neighbourhood'', PStr [])])) (\<lambda>levels.
     seq (assign (lit ''administrative_levels'') (PDict levels)) (\<lambda>_.
     seq (lift (and_then (gets components [(lit ''postcode'', lit ''postcode'', PStr [])]) (\<lambda>a.
                and_then (gets annotations
                  [(lit ''continent'', lit ''continent'', PStr []),
                   (lit ''currency'', lit ''currency'', PDict []),
                   (lit ''calling_code'', lit ''callingcode'', PStr []),
                   (lit ''flag'', lit ''flag'', PStr []),
                   (lit ''geohash'', lit ''geohash'', PStr []),
                   (lit ''what3words'', lit ''what3words'', PDict [])]) (\<lambda>b. Inr (a @ b)))))
       (\<lambda>geographic.
     seq (assign (lit ''geographic_info'') (PDict geographic)) (\<lambda>_.
     seq (lift (gets annotations
            [(lit ''mgrs'', lit ''MGRS'', PStr []),
             (lit ''maidenhead'', lit ''Maidenhead'', PStr []),
             (lit ''mercator'', lit ''Mercator'', PDict []),
             (lit ''osm'', lit ''OSM'', PDict []),
             (lit ''un_m49'', lit ''UN_M49'', PDict [])])) (\<lambda>quality.
     seq (assign (lit ''quality_info'') (PDict quality)) (\<lambda>_.
     seq (lift (contains_item (lit ''DMS'') annotations)) (\<lambda>has_dms.
       if has_dms then
         seq (lift (and_then (getitem annotations (lit ''DMS'')) (\<lambda>dms.
                    and_then (gets annotations
                      [(lit ''mgrs'', lit ''MGRS'', PStr []),
                       (lit ''maidenhead'', lit ''Maidenhead'', PStr [])]) (\<lambda>b.
                    Inr ((lit ''dms'', dms) # b))))) (\<lambda>systems.
         assign (lit ''coordinate_systems'') (PDict systems))
       else ret ())))))))))))))"

text \<open>The body of the \<open>try\<close>, started on the copy of \<open>address_data\<close>.\<close>

definition enrich_try ::
  "'w geocoder \<Rightarrow> dict \<Rightarrow> (pyval \<times> pyval) option \<Rightarrow> bool \<Rightarrow> bool \<Rightarrow> (unit, dict \<times> 'w) comp" where
  "enrich_try G address_data coordinates clean_special_chars aggressive =
     seq (resolve_coordinates G address_data coordinates) (\<lambda>(lat, lng).
     seq (if truthy lat \<and> truthy lng then
            seq (world (reverse_geocode G lat lng None clean_special_chars)) (\<lambda>reverse_result.
              case reverse_result of
                [] \<Rightarrow> ret ()
              | candidate # _ \<Rightarrow> attach_place candidate clean_special_chars aggressive)
          else ret ()) (\<lambda>_.
     seq (world (\<lambda>w. case now G w of (t, w') \<Rightarrow> (Inr t, w'))) (\<lambda>timestamp.
     seq (assign (lit ''enrichment_timestamp'') (PStr timestamp)) (\<lambda>_.
     assign (lit ''enrichment_version'') (PStr (lit ''1.0''))))))"

definition enrich_location_data ::
  "interp \<Rightarrow> 'w geocoder \<Rightarrow> dict \<Rightarrow> (pyval \<times> pyval) option \<Rightarrow> bool \<Rightarrow> bool \<Rightarrow> 'w \<Rightarrow> dict \<times> 'w" where
  "enrich_location_data I G address_data coordinates clean_special_chars aggressive w =
     (case enrich_try G address_data coordinates clean_special_chars aggressive (address_data, w) of
        (Inr _, enriched, w') \<Rightarrow> (enriched, w')
      | (Inl e, enriched, w') \<Rightarrow>
          (dict_set enriched (lit ''enrichment_error'') (PStr (exn_str I e)), w'))"

section \<open>process_address_batch\<close>

text \<open>
  The functions called on values of a record, which need not be strings: the exception is
  the one of the first method that the value does not have.
\<close>

definition detect_value :: "interp \<Rightarrow> pyval \<Rightarrow> exn + completeness" where
  "detect_value I address =
     (if \<not> truthy address then Inr (detect_incomplete_address I [])
      else case address of
             PStr a \<Rightarrow> Inr (detect_incomplete_address I a)
           | _ \<Rightarrow> Inl (AttributeError address (lit ''lower'')))"

definition normalize_value :: "interp \<Rightarrow> pyval \<Rightarrow> str \<Rightarrow> exn + pyval" where
  "normalize_value I address target_language =
     (if \<not> truthy address then Inr address
      else case address of
             PStr a \<Rightarrow> Inr (PStr (normalize_address_format I a target_language))
           | _ \<Rightarrow> Inl (AttributeError address (lit ''lower'')))"

text \<open>\<open>coordinates\<close>, set when the record has both keys \<open>lat\<close> and \<open>lng\<close>.\<close>

definition record_coordinates :: "interp \<Rightarrow> dict \<Rightarrow> exn + (pyval \<times> pyval) option" where
  "record_coordinates I addr_data =
     (case (dict_get addr_data (lit ''lat''), dict_get addr_data (lit ''lng'')) of
        (Some lat, Some lng) \<Rightarrow>
          and_then (to_float I lat) (\<lambda>lat.
          and_then (to_float I lng) (\<lambda>lng.
          Inr (Some (PFloat lat, PFloat lng))))
      | _ \<Rightarrow> Inr None)"

text \<open>\<open>final_coords\<close>: the coordinates of the input, else the ones found by the completion.\<close>

definition final_coordinates :: "(pyval \<times> pyval) option \<Rightarrow> dict \<Rightarrow> exn + (pyval \<times> pyval) option" where
  "final_coordinates coordinates addr_data =
     (if coordinates = None \<and> truthy (get_or addr_data (lit ''coordinates'') PNone) then
        and_then (getitem (get_or addr_data (lit ''coordinates'') PNone) (lit ''lat'')) (\<lambda>lat.
        and_then (getitem (get_or addr_data (lit ''coordinates'') PNone) (lit ''lng'')) (\<lambda>lng.
        Inr (Some (lat, lng))))
      else Inr coordinates)"

text \<open>
  \<open>time.sleep(delay)\<close>. The interpreter first turns the length into a whole number of
  nanoseconds in 64 bits, and raises \<open>OverflowError\<close> when it does not fit. A \<open>float\<close> is
  multiplied by \<open>1e9\<close> as a \<open>float\<close>, and the product rounds to \<open>2^63\<close> from
  \<open>2^63 - 512\<close> on, and below \<open>- 2^63\<close> from \<open>- 2^63 - 1024\<close> on; an integer is
  multiplied exactly. Neither infinity fits, and a NaN is a \<open>ValueError\<close>. Then a negative
  length is refused with \<open>ValueError\<close>, and any other is handed to the operating system. A
  value that is not a number is a \<open>TypeError\<close>.
\<close>

definition sleep :: "'w geocoder \<Rightarrow> pyval \<Rightarrow> (unit, 'w) comp" where
  "sleep G delay =
     (case delay of
        PFloat (Finite r) \<Rightarrow>
          if r * 10 ^ 9 < - (2 ^ 63) - 1024 \<or> 2 ^ 63 - 512 \<le> r * 10 ^ 9
          then lift (Inl (OverflowError (lit ''sleep'') delay))
          else if r < 0 then lift (Inl (ValueError (lit ''sleep'') delay))
          else pause G r
      | PFloat NaN \<Rightarrow> lift (Inl (ValueError (lit ''sleep'') delay))
      | PFloat _ \<Rightarrow> lift (Inl (OverflowError (lit ''sleep'') delay))
      | PInt i \<Rightarrow>
          if i * 10 ^ 9 < - (2 ^ 63) \<or> 2 ^ 63 \<le> i * 10 ^ 9
          then lift (Inl (OverflowError (lit ''sleep'') delay))
          else if i < 0 then lift (Inl (ValueError (lit ''sleep'') delay))
          else pause G (real_of_int i)
      | PBool b \<Rightarrow> pause G (if b then 1 else 0)
      | _ \<Rightarrow> lift (Inl (TypeError (lit ''sleep'') delay)))"

text \<open>
  The steps for one record. The state is the record \<open>addr_data\<close>, which the steps change in
  place, and the world.

  Step 2: the completion, when the address is incomplete, and the update of the record with
  its result.
\<close>

definition complete_record ::
  "interp \<Rightarrow> 'w geocoder \<Rightarrow> str \<Rightarrow> bool \<Rightarrow> bool \<Rightarrow> pyval \<Rightarrow> (pyval \<times> pyval) option
     \<Rightarrow> completeness \<Rightarrow> (unit, dict \<times> 'w) comp" where
  "complete_record I G language clean_special_chars aggressive address coordinates completeness =
     (if \<not> is_complete completeness \<or> confidence completeness < 7 / 10 then
        (\<lambda>(d, w). case complete_address I G address coordinates language clean_special_chars
                          aggressive w of
                    (completion_result, w') \<Rightarrow> (Inr (), dict_update d completion_result, w'))
      else ret ())"

text \<open>Step 3: the normalized form of a completed address that is there.\<close>

definition normalize_record :: "interp \<Rightarrow> str \<Rightarrow> (unit, dict \<times> 'w) comp" where
  "normalize_record I language =
     seq current (\<lambda>addr_data.
       if truthy (get_or addr_data (lit ''completed_address'') PNone) then
         seq (lift (normalize_value I (get_or addr_data (lit ''completed_address'') PNone) language))
           (assign (lit ''normalized_address''))
       else ret ())"

text \<open>Step 4: the validation of a postal code among the components.\<close>

definition validate_record :: "interp \<Rightarrow> (unit, dict \<times> 'w) comp" where
  "validate_record I =
     seq current (\<lambda>addr_data.
     seq (lift (contains_item (lit ''postcode'') (get_or addr_data (lit ''components'') (PDict []))))
       (\<lambda>has_postcode.
         if has_postcode then
           seq (lift (and_then (getitem (get_or addr_data (lit ''components'') (PDict []))
                                  (lit ''postcode'')) (\<lambda>postcode.
                      and_then (get_method (get_or addr_data (lit ''components'') (PDict []))
                                  (lit ''country_code'') PNone) (\<lambda>country_code.
                      validate_postal_code I postcode country_code))))
             (\<lambda>postal_validation. assign (lit ''postal_validation'') (PDict postal_validation))
         else ret ()))"

text \<open>Step 5: the enrichment, and the update of the record with its result.\<close>

definition enrich_record ::
  "interp \<Rightarrow> 'w geocoder \<Rightarrow> (pyval \<times> pyval) option \<Rightarrow> bool \<Rightarrow> bool \<Rightarrow> (unit, dict \<times> 'w) comp" where
  "enrich_record I G final_coords clean_special_chars aggressive =
     (\<lambda>(d, w). case enrich_location_data I G d final_coords clean_special_chars aggressive w of
                 (enriched_data, w') \<Rightarrow> (Inr (), dict_update d enriched_data, w'))"

text \<open>The quality metrics.\<close>

definition metrics_record ::
  "'w geocoder \<Rightarrow> completeness \<Rightarrow> (pyval \<times> pyval) option \<Rightarrow> (unit, dict \<times> 'w) comp" where
  "metrics_record G completeness final_coords =
     seq current (\<lambda>addr_data.
     seq (world (\<lambda>w. case now G w of (t, w') \<Rightarrow> (Inr t, w'))) (\<lambda>timestamp.
     assign (lit ''quality_metrics'')
       (PDict [(lit ''completeness_score'', PFloat (Finite (confidence completeness))),
               (lit ''has_coordinates'', PBool (final_coords \<noteq> None)),
               (lit ''method_used'', get_or addr_data (lit ''method_used'') (PStr (lit ''none''))),
               (lit ''processing_timestamp'', PStr timestamp)])))"

text \<open>The body of the \<open>try\<close> up to the \<open>append\<close>.\<close>

definition process_try ::
  "interp \<Rightarrow> 'w geocoder \<Rightarrow> str \<Rightarrow> bool \<Rightarrow> bool \<Rightarrow> (unit, dict \<times> 'w) comp" where
  "process_try I G language clean_special_chars aggressive =
     seq current (\<lambda>addr_data.
     seq (lift (record_coordinates I addr_data)) (\<lambda>coordinates.
     seq (lift (detect_value I (get_or addr_data (lit ''address'') (PStr [])))) (\<lambda>completeness.
     seq (complete_record I G language clean_special_chars aggressive
            (get_or addr_data (lit ''address'') (PStr [])) coordinates completeness) (\<lambda>_.
     seq (normalize_record I language) (\<lambda>_.
     seq (validate_record I) (\<lambda>_.
     seq current (\<lambda>addr_data.
     seq (lift (final_coordinates coordinates addr_data)) (\<lambda>final_coords.
     seq (enrich_record I G final_coords clean_special_chars aggressive) (\<lambda>_.
     metrics_record G completeness final_coords)))))))))"

text \<open>
  One turn of the loop: the records it appends to \<open>processed_addresses\<close>. The records of
  the batch are taken to be distinct objects, and what the loop prints is left out. The \<open>sleep\<close>
  comes after the \<open>append\<close> and inside the \<open>try\<close>: when it raises, the handler appends
  the same record a second time, and both entries are the one object that now bears
  \<open>processing_error\<close>.
\<close>

definition process_record ::
  "interp \<Rightarrow> 'w geocoder \<Rightarrow> pyval \<Rightarrow> str \<Rightarrow> bool \<Rightarrow> bool \<Rightarrow> dict \<Rightarrow> bool \<Rightarrow> 'w \<Rightarrow> dict list \<times> 'w" where
  "process_record I G delay language clean_special_chars aggressive addr_data is_last w =
     (case process_try I G language clean_special_chars aggressive (addr_data, w) of
        (Inr _, d, w') \<Rightarrow>
          (if \<not> is_last then
             (case sleep G delay w' of
                (Inr _, w'') \<Rightarrow> ([d], w'')
              | (Inl e, w'') \<Rightarrow>
                  ([dict_set d (lit ''processing_error'') (PStr (exn_str I e)),
                    dict_set d (lit ''processing_error'') (PStr (exn_str I e))], w''))
           else ([d], w'))
      | (Inl e, d, w') \<Rightarrow> ([dict_set d (lit ''processing_error'') (PStr (exn_str I e))], w'))"

fun process_from ::
  "interp \<Rightarrow> 'w geocoder \<Rightarrow> pyval \<Rightarrow> str \<Rightarrow> bool \<Rightarrow> bool \<Rightarrow> dict list \<Rightarrow> 'w \<Rightarrow> dict list \<times> 'w" where
  "process_from I G delay language clean_special_chars aggressive [] w = ([], w)"
| "process_from I G delay language clean_special_chars aggressive (addr_data # rest) w =
     (case process_record I G delay language clean_special_chars aggressive addr_data (rest = []) w of
        (appended, w') \<Rightarrow>
          (case process_from I G delay language clean_special_chars aggressive rest w' of
             (processed, w'') \<Rightarrow> (appended @ processed, w'')))"

definition process_address_batch ::
  "interp \<Rightarrow> 'w geocoder \<Rightarrow> dict list \<Rightarrow> pyval \<Rightarrow> str \<Rightarrow> bool \<Rightarrow> bool \<Rightarrow> 'w \<Rightarrow> dict list \<times> 'w" where
  "process_address_batch I G addresses delay language clean_special_chars aggressive w =
     process_from I G delay language clean_special_chars aggressive addresses w"

section \<open>Sample interpreter tables and providers\<close>

text \<open>
  Tables for a text that stays within ASCII: beyond it no digit, no word character, no
  case, no number, and empty messages.
\<close>

definition ascii_interp :: interp where
  "ascii_interp =
     \<lparr>it_isdigit = (\<lambda>c. False), it_isword = (\<lambda>c. False), it_lower = (\<lambda>s. s), it_upper = (\<lambda>s. s),
      it_title = (\<lambda>s. s), it_capitalize = (\<lambda>s. s), it_ignorecase = (\<lambda>p c. p = c),
      it_float = (\<lambda>s. None), it_message = (\<lambda>e. [])\<rparr>"

text \<open>
  A provider that is down: every call raises. The world is the number of calls made to the
  provider; the system waits as long as it is asked to.
\<close>

definition failing_geocoder :: "nat geocoder" where
  "failing_geocoder =
     \<lparr>geocode = (\<lambda>query language w. (Inl (Raised (lit ''quota exceeded'')), Suc w)),
      reverse_geocode = (\<lambda>lat lng language no_annotations w. (Inl (Raised (lit ''quota exceeded'')), Suc w)),
      now = (\<lambda>w. (lit ''2024-01-01T00:00:00'', w)),
      pause = (\<lambda>seconds w. (Inr (), w))\<rparr>"

text \<open>A provider that answers every call with the same candidate.\<close>

definition madrid_fields :: dict where
  "madrid_fields =
     [(lit ''formatted'', PStr (lit ''Gran Via 7, Madrid'')),
      (lit ''components'', PDict [(lit ''city'', PStr (lit ''Madrid'')),
                                  (lit ''postcode'', PStr (lit ''28013'')),
                                  (lit ''country_code'', PStr (lit ''es''))]),
      (lit ''confidence'', PInt 3),
      (lit ''geometry'', PDict [(lit ''lat'', PFloat (Finite (404 / 10))),
                                (lit ''lng'', PFloat (Finite (- 37 / 10)))])]"

definition madrid :: pyval where
  "madrid = PDict madrid_fields"

definition madrid_geocoder :: "nat geocoder" where
  "madrid_geocoder =
     \<lparr>geocode = (\<lambda>query language w. (Inr [madrid], Suc w)),
      reverse_geocode = (\<lambda>lat lng language no_annotations w. (Inr [madrid], Suc w)),
      now = (\<lambda>w. (lit ''2024-01-01T00:00:00'', w)),
      pause = (\<lambda>seconds w. (Inr (), w))\<rparr>"

text \<open>A provider that answers every call with a street that has no number.\<close>

definition street_fields :: dict where
  "street_fields =
     [(lit ''formatted'', PStr (lit ''Gran Via (Madrid)'')),
      (lit ''components'', PDict [(lit ''road'', PStr (lit ''Gran Via'')),
                                  (lit ''city'', PStr (lit ''Madrid''))])]"

definition street_geocoder :: "nat geocoder" where
  "street_geocoder =
     \<lparr>geocode = (\<lambda>query language w. (Inr [PDict street_fields], Suc w)),
      reverse_geocode = (\<lambda>lat lng language no_annotations w. (Inr [PDict street_fields], Suc w)),
      now = (\<lambda>w. (lit ''2024-01-01T00:00:00'', w)),
      pause = (\<lambda>seconds w. (Inr (), w))\<rparr>"

section \<open>Notions used in the proof that clean_address_text is idempotent\<close>

text \<open>
  A text in which every whitespace character is a single space that follows no other
  whitespace; the flag says that the character before the text is whitespace.
\<close>

fun collapsed :: "bool \<Rightarrow> str \<Rightarrow> bool" where
  "collapsed b [] = True"
| "collapsed b (c # cs) = (if isspace c then \<not> b \<and> c = 32 \<and> collapsed True cs else collapsed False cs)"

text \<open>The keys of \<open>replacements\<close>.\<close>

definition accented_chars :: "nat list" where
  "accented_chars = concat (map fst replacements)"

text \<open>A text without the characters that the first steps of the cleaning take away.\<close>

definition tidy :: "bool \<Rightarrow> str \<Rightarrow> bool" where
  "tidy aggressive s \<longleftrightarrow> set s \<inter> set special_chars = {} \<and>
      (aggressive \<longrightarrow> set s \<inter> set accented_chars = {})"

section \<open>Notions used in the statement about detect_incomplete_address\<close>

text \<open>The four components of a complete address, in the order in which the code tests them.\<close>

definition component_names :: "str list" where
  "component_names = [lit ''street_number'', lit ''street_name'', lit ''city'', lit ''postal_code'']"

section \<open>Notions used in the statements about complete_address\<close>

text \<open>
  A call that \<open>complete_address\<close> makes to the provider raises \<open>e\<close>: the reverse lookup
  when coordinates are given, or the forward lookup, which is made when there are no
  coordinates or the reverse lookup found nothing, and the partial address is not blank.
\<close>

definition provider_raises ::
  "'w geocoder \<Rightarrow> str \<Rightarrow> (pyval \<times> pyval) option \<Rightarrow> str \<Rightarrow> bool \<Rightarrow> 'w \<Rightarrow> exn \<Rightarrow> bool" where
  "provider_raises G p coordinates language clean_special_chars w e \<longleftrightarrow>
     (case coordinates of
        Some (lat, lng) \<Rightarrow>
          (case reverse_geocode G lat lng (Some language) clean_special_chars w of
             (Inl e', w') \<Rightarrow> e' = e
           | (Inr [], w') \<Rightarrow> strip p \<noteq> [] \<and> fst (geocode G (PStr p) (Some language) w') = Inl e
           | (Inr (candidate # rest), w') \<Rightarrow> False)
      | None \<Rightarrow> strip p \<noteq> [] \<and> fst (geocode G (PStr p) (Some language) w) = Inl e)"

text \<open>The four shapes of the dictionary that \<open>complete_address\<close> returns.\<close>

definition error_result :: "interp \<Rightarrow> pyval \<Rightarrow> exn \<Rightarrow> dict" where
  "error_result I partial_address e =
     dict_set (dict_set (initial_result partial_address) (lit ''error'') (PStr (exn_str I e)))
       (lit ''method_used'') (PStr (lit ''error''))"

definition reverse_result :: "pyval \<Rightarrow> pyval \<Rightarrow> pyval \<Rightarrow> dict" where
  "reverse_result partial_address merged_address components =
     dict_update (initial_result partial_address)
       [(lit ''completed_address'', merged_address),
        (lit ''method_used'', PStr (lit ''reverse_geocoding'')),
        (lit ''confidence'', PFloat (Finite (9 / 10))),
        (lit ''components'', components)]"

definition forward_result :: "pyval \<Rightarrow> pyval \<Rightarrow> pyfloat \<Rightarrow> pyval \<Rightarrow> pyval \<Rightarrow> pyval \<Rightarrow> dict" where
  "forward_result partial_address full_address c components lat lng =
     dict_update (initial_result partial_address)
       [(lit ''completed_address'', full_address),
        (lit ''method_used'', PStr (lit ''forward_geocoding'')),
        (lit ''confidence'', PFloat (float_min c (Finite (8 / 10)))),
        (lit ''components'', components),
        (lit ''coordinates'', PDict [(lit ''lat'', lat), (lit ''lng'', lng)])]"

section \<open>Notions used in the statements about enrich_location_data\<close>

text \<open>A record with the two marks that every enrichment ends with.\<close>

definition stamped :: "dict \<Rightarrow> str \<Rightarrow> dict" where
  "stamped d timestamp =
     dict_set (dict_set d (lit ''enrichment_timestamp'') (PStr timestamp))
       (lit ''enrichment_version'') (PStr (lit ''1.0''))"

text \<open>A sample record.\<close>

definition greenwich :: dict where
  "greenwich = [(lit ''address'', PStr (lit ''Greenwich''))]"

section \<open>Notions used in the statements about process_address_batch\<close>

text \<open>A value under a key that is a string, when the key is there at all.\<close>

definition text_or_absent :: "pyval option \<Rightarrow> bool" where
  "text_or_absent v = (case v of None \<Rightarrow> True | Some (PStr s) \<Rightarrow> True | Some _ \<Rightarrow> False)"

text \<open>
  Components as the provider documents them: a dictionary whose \<open>postcode\<close> and
  \<open>country_code\<close>, when given, are strings.
\<close>

definition good_components :: "pyval \<Rightarrow> bool" where
  "good_components v =
     (case v of
        PDict cs \<Rightarrow> text_or_absent (dict_get cs (lit ''postcode'')) \<and>
                    text_or_absent (dict_get cs (lit ''country_code''))
      | _ \<Rightarrow> False)"

text \<open>
  A candidate as the provider documents it: when it is a dictionary, its \<open>formatted\<close> is a
  string and its \<open>components\<close> are as above, when they are given. Nothing is asked of its
  geometry, confidence or annotations.
\<close>

definition good_candidate :: "pyval \<Rightarrow> bool" where
  "good_candidate v =
     (case v of
        PDict c \<Rightarrow> text_or_absent (dict_get c (lit ''formatted'')) \<and>
                   (case dict_get c (lit ''components'') of None \<Rightarrow> True | Some cs \<Rightarrow> good_components cs)
      | _ \<Rightarrow> True)"

text \<open>A provider whose answers, when it answers, are lists of such candidates.\<close>

definition shaped :: "'w geocoder \<Rightarrow> bool" where
  "shaped G \<longleftrightarrow>
     (\<forall>query language w candidates w'.
        geocode G query language w = (Inr candidates, w') \<longrightarrow> list_all good_candidate candidates) \<and>
     (\<forall>lat lng language no_annotations w candidates w'.
        reverse_geocode G lat lng language no_annotations w = (Inr candidates, w') \<longrightarrow>
        list_all good_candidate candidates)"

text \<open>A dictionary with the keys \<open>lat\<close> and \<open>lng\<close>.\<close>

definition has_lat_lng :: "pyval \<Rightarrow> bool" where
  "has_lat_lng v = (case v of
      PDict g \<Rightarrow> dict_get g (lit ''lat'') \<noteq> None \<and> dict_get g (lit ''lng'') \<noteq> None
    | _ \<Rightarrow> False)"

text \<open>
  What steps 3 to 5 need of a record: the fields they read have the types they are used at,
  and no key occurs twice.
\<close>

definition ready :: "dict \<Rightarrow> bool" where
  "ready d \<longleftrightarrow>
     distinct (map fst d) \<and>
     text_or_absent (dict_get d (lit ''completed_address'')) \<and>
     (case dict_get d (lit ''components'') of None \<Rightarrow> True | Some cs \<Rightarrow> good_components cs) \<and>
     (case dict_get d (lit ''coordinates'') of None \<Rightarrow> True | Some v \<Rightarrow> has_lat_lng v) \<and>
     dict_get d (lit ''processing_error'') = None"

text \<open>
  A record as the batch expects it: a dictionary (no key twice) whose \<open>address\<close>, if any,
  is a string, whose \<open>lat\<close> and \<open>lng\<close>, if both are there, convert to \<open>float\<close>, and
  which does not yet have the fields \<open>completed_address\<close>, \<open>components\<close>,
  \<open>coordinates\<close> and \<open>processing_error\<close>.
\<close>

definition wellformed :: "interp \<Rightarrow> dict \<Rightarrow> bool" where
  "wellformed I d \<longleftrightarrow>
     distinct (map fst d) \<and>
     text_or_absent (dict_get d (lit ''address'')) \<and>
     (\<exists>coordinates. record_coordinates I d = Inr coordinates) \<and>
     dict_get d (lit ''completed_address'') = None \<and>
     dict_get d (lit ''components'') = None \<and>
     dict_get d (lit ''coordinates'') = None \<and>
     dict_get d (lit ''processing_error'') = None"

text \<open>A computation keeps a property of the record, whether it raises or returns.\<close>

definition preserves :: "(dict \<Rightarrow> bool) \<Rightarrow> ('a, dict \<times> 'w) comp \<Rightarrow> bool" where
  "preserves P m \<longleftrightarrow> (\<forall>d w r d' w'. P d \<longrightarrow> m (d, w) = (r, d', w') \<longrightarrow> P d')"

text \<open>The keys that \<open>enrich_location_data\<close> assigns.\<close>

definition enrich_keys :: "str list" where
  "enrich_keys =
     [lit ''coordinates'', lit ''timezone'', lit ''administrative_levels'', lit ''geographic_info'',
      lit ''quality_info'', lit ''coordinate_systems'', lit ''enrichment_timestamp'',
      lit ''enrichment_version'', lit ''enrichment_error'']"

text \<open>The record has no key twice and has \<open>x\<close> under \<open>k\<close> (or nothing, for \<open>None\<close>).\<close>

definition holds :: "str \<Rightarrow> pyval option \<Rightarrow> dict \<Rightarrow> bool" where
  "holds k x d \<longleftrightarrow> distinct (map fst d) \<and> dict_get d k = x"

text \<open>What the result of \<open>complete_address\<close> gives to the steps that follow.\<close>

definition completion_fields :: "dict \<Rightarrow> bool" where
  "completion_fields r \<longleftrightarrow>
     distinct (map fst r) \<and>
     text_or_absent (dict_get r (lit ''completed_address'')) \<and>
     (case dict_get r (lit ''components'') of None \<Rightarrow> False | Some cs \<Rightarrow> good_components cs) \<and>
     (case dict_get r (lit ''coordinates'') of None \<Rightarrow> True | Some v \<Rightarrow> has_lat_lng v) \<and>
     dict_get r (lit ''processing_error'') = None"

text \<open>
  The completion is run for the record (its address is incomplete) and the call it makes to
  the provider raises \<open>e\<close>, in the world \<open>w\<close> in which the loop reaches the record.
\<close>

definition completion_raises ::
  "interp \<Rightarrow> 'w geocoder \<Rightarrow> dict \<Rightarrow> str \<Rightarrow> bool \<Rightarrow> 'w \<Rightarrow> exn \<Rightarrow> bool" where
  "completion_raises I G d language clean_special_chars w e =
     (case (get_or d (lit ''address'') (PStr []), record_coordinates I d) of
        (PStr p, Inr coordinates) \<Rightarrow>
          \<not> is_complete (detect_incomplete_address I p) \<and>
          provider_raises G p coordinates language clean_special_chars w e
      | _ \<Rightarrow> False)"

text \<open>The keys of the result of \<open>complete_address\<close>, and all the keys the loop writes.\<close>

definition completion_keys :: "str list" where
  "completion_keys =
     [lit ''original_address'', lit ''completed_address'', lit ''method_used'', lit ''confidence'',
      lit ''components'', lit ''suggestions'', lit ''coordinates'', lit ''error'']"

definition pipeline_keys :: "str list" where
  "pipeline_keys =
     completion_keys @ [lit ''normalized_address'', lit ''postal_validation''] @ enrich_keys @
     [lit ''quality_metrics'', lit ''processing_error'']"

text \<open>The steps of \<open>process_try\<close> that follow the completion.\<close>

definition after_completion ::
  "interp \<Rightarrow> 'w geocoder \<Rightarrow> str \<Rightarrow> bool \<Rightarrow> bool \<Rightarrow> (pyval \<times> pyval) option \<Rightarrow> completeness
     \<Rightarrow> (unit, dict \<times> 'w) comp" where
  "after_completion I G language c a coordinates completeness =
     seq (normalize_record I language) (\<lambda>_.
     seq (validate_record I) (\<lambda>_.
     seq current (\<lambda>addr_data.
     seq (lift (final_coordinates coordinates addr_data)) (\<lambda>final_coords.
     seq (enrich_record I G final_coords c a) (\<lambda>_.
     metrics_record G completeness final_coords)))))"

text \<open>
  The record \<open>d'\<close> is the record \<open>d\<close> fully processed in the world \<open>w\<close>: it bears no
  \<open>processing_error\<close>, it has its \<open>quality_metrics\<close>, every key that the loop does not
  write is as in \<open>d\<close>, and when the provider call of its completion raised, it bears the
  message under \<open>error\<close> and has \<open>method_used = error\<close>.
\<close>

definition processed ::
  "interp \<Rightarrow> 'w geocoder \<Rightarrow> str \<Rightarrow> bool \<Rightarrow> dict \<Rightarrow> 'w \<Rightarrow> dict \<Rightarrow> bool" where
  "processed I G language clean_special_chars d w d' \<longleftrightarrow>
     dict_get d' (lit ''processing_error'') = None \<and>
     dict_get d' (lit ''quality_metrics'') \<noteq> None \<and>
     (\<forall>k. k \<notin> set pipeline_keys \<longrightarrow> dict_get d' k = dict_get d k) \<and>
     (\<forall>e. completion_raises I G d language clean_special_chars w e \<longrightarrow>
        dict_get d' (lit ''error'') = Some (PStr (exn_str I e)) \<and>
        dict_get d' (lit ''method_used'') = Some (PStr (lit ''error'')))"

text \<open>\<open>time.sleep(delay)\<close> returns, whatever the state of the world.\<close>

definition sleeps :: "'w geocoder \<Rightarrow> pyval \<Rightarrow> bool" where
  "sleeps G delay \<longleftrightarrow> (\<forall>w. fst (sleep G delay w) = Inr ())"

text \<open>
  The worlds in which the loop reaches the records of the batch, one after the other: the
  first is the world in which the batch starts, the next is the one that the turn for the
  first record leaves, its wait included.
\<close>

fun process_worlds ::
  "interp \<Rightarrow> 'w geocoder \<Rightarrow> pyval \<Rightarrow> str \<Rightarrow> bool \<Rightarrow> bool \<Rightarrow> dict list \<Rightarrow> 'w \<Rightarrow> 'w list" where
  "process_worlds I G delay language clean_special_chars aggressive [] w = []"
| "process_worlds I G delay language clean_special_chars aggressive (addr_data # rest) w =
     w # process_worlds I G delay language clean_special_chars aggressive rest
           (snd (process_record I G delay language clean_special_chars aggressive addr_data (rest = []) w))"

text \<open>Another sample record.\<close>

definition barcelona :: dict where
  "barcelona = [(lit ''id'', PInt 8), (lit ''address'', PStr (lit ''Barcelona''))]"

section \<open>clean_address_text is idempotent\<close>

lemma isspace_32: "isspace 32" by (simp add: isspace_def)

lemma collapsed_sub_spaces: "collapsed b (sub_spaces b s)"
  by (induction s arbitrary: b) (simp_all add: isspace_32)

lemma sub_spaces_collapsed: "collapsed b s \<Longrightarrow> sub_spaces b s = s"
  by (induction s arbitrary: b) (auto split: if_splits)

lemma collapsed_weaken: "collapsed b s \<Longrightarrow> collapsed False s"
  by (cases s) (auto split: if_splits)

lemma collapsed_nonspace_hd: "s = [] \<or> \<not> isspace (hd s) \<Longrightarrow> collapsed b s = collapsed False s"
  by (cases s) auto

lemma collapsed_append_left: "collapsed b (xs @ ys) \<Longrightarrow> collapsed b xs"
  by (induction xs arbitrary: b) (auto split: if_splits)

lemma collapsed_dropWhile: "collapsed b s \<Longrightarrow> collapsed b' (dropWhile isspace s)"
proof (induction s arbitrary: b)
  case Nil then show ?case by simp
next
  case (Cons c cs)
  show ?case
  proof (cases "isspace c")
    case True
    with Cons.prems have "collapsed True cs" by simp
    then show ?thesis using True Cons.IH by simp
  next
    case False
    with Cons.prems show ?thesis by simp
  qed
qed

lemma rstrip_prefix: "rstrip s @ rev (takeWhile isspace (rev s)) = s"
proof -
  have "rev (takeWhile isspace (rev s) @ dropWhile isspace (rev s)) = s" by simp
  then show ?thesis unfolding rstrip_def rev_append .
qed

lemma collapsed_strip: assumes "collapsed b s" shows "collapsed b' (strip s)"
proof -
  from assms have "collapsed b (rstrip s @ rev (takeWhile isspace (rev s)))"
    by (simp only: rstrip_prefix)
  then have "collapsed b (rstrip s)" by (rule collapsed_append_left)
  then show ?thesis unfolding strip_def by (rule collapsed_dropWhile)
qed

lemma rstrip_last: "rstrip s \<noteq> [] \<Longrightarrow> \<not> isspace (last (rstrip s))"
  unfolding rstrip_def by (simp add: last_rev hd_dropWhile)

lemma rstrip_id: "s = [] \<or> \<not> isspace (last s) \<Longrightarrow> rstrip s = s"
  unfolding rstrip_def by (cases s rule: rev_cases) auto

lemma last_dropWhile: "dropWhile P xs \<noteq> [] \<Longrightarrow> last (dropWhile P xs) = last xs"
  by (induction xs) (auto split: if_splits)

lemma strip_strip: "strip (strip s) = strip s"
proof -
  let ?z = "strip s"
  have l: "?z = [] \<or> \<not> isspace (last ?z)"
  proof (cases "?z = []")
    case True then show ?thesis by simp
  next
    case False
    then have ne: "rstrip s \<noteq> []" by (auto simp: strip_def)
    from False have "last ?z = last (rstrip s)" unfolding strip_def by (rule last_dropWhile)
    with rstrip_last[OF ne] show ?thesis by simp
  qed
  have h: "?z = [] \<or> \<not> isspace (hd ?z)"
    unfolding strip_def by (cases "dropWhile isspace (rstrip s) = []") (simp_all add: hd_dropWhile)
  from l have "rstrip ?z = ?z" by (rule rstrip_id)
  then have "strip ?z = dropWhile isspace ?z" by (simp add: strip_def)
  also from h have "\<dots> = ?z" by (simp add: dropWhile_eq_self_iff)
  finally show ?thesis .
qed

lemma set_sub_spaces: "set (sub_spaces b s) \<subseteq> insert 32 (set s)"
  by (induction s arbitrary: b) auto

lemma set_strip: "set (strip s) \<subseteq> set s"
proof -
  have "set (strip s) \<subseteq> set (rstrip s)" unfolding strip_def by (rule set_dropWhileD[THEN subsetI]) 
  also have "\<dots> \<subseteq> set s" unfolding rstrip_def using set_dropWhileD[of _ isspace "rev s"] by auto
  finally show ?thesis .
qed

lemma replace_from_absent: "old \<noteq> [] \<Longrightarrow> hd old \<notin> set s \<Longrightarrow> replace_from old new 0 s = s"
proof (induction s)
  case Nil then show ?case by simp
next
  case (Cons c cs)
  then have "take (length old) (c # cs) \<noteq> old"
    by (cases old) auto
  with Cons show ?case by simp
qed

lemma str_replace_absent: "old \<noteq> [] \<Longrightarrow> hd old \<notin> set s \<Longrightarrow> str_replace old new s = s"
  by (simp add: str_replace_def replace_from_absent)

lemma replace_from_single: "replace_from [k] new 0 s = concat (map (\<lambda>c. if c = k then new else [c]) s)"
  by (induction s) auto

lemma set_str_replace_single: "set (str_replace [k] new s) \<subseteq> (set s - {k}) \<union> set new"
  by (auto simp: str_replace_def replace_from_single split: if_splits)

lemma apply_replacements_Cons:
  "apply_replacements ((k, v) # rs) s = apply_replacements rs (str_replace k v s)"
  by (simp add: apply_replacements_def)

lemma apply_replacements_absent:
  "\<forall>(k, v) \<in> set rs. k \<noteq> [] \<and> hd k \<notin> set s \<Longrightarrow> apply_replacements rs s = s"
proof (induction rs)
  case Nil then show ?case by (simp add: apply_replacements_def)
next
  case (Cons r rs)
  obtain k v where r: "r = (k, v)" by (cases r)
  from Cons.prems r have "str_replace k v s = s" by (simp add: str_replace_absent)
  with Cons r show ?case by (simp add: apply_replacements_Cons)
qed

lemma apply_replacements_keys:
  "\<forall>(k, v) \<in> set rs. length k = 1 \<and> set v \<inter> B = {} \<Longrightarrow>
   set (apply_replacements rs s) \<inter> B \<subseteq> (set s \<inter> B) - set (concat (map fst rs))"
proof (induction rs arbitrary: s)
  case Nil then show ?case by (simp add: apply_replacements_def)
next
  case (Cons r rs)
  obtain k v where r: "r = (k, v)" by (cases r)
  from Cons.prems r obtain c where k: "k = [c]" by (cases k) auto
  from Cons.prems r have v: "set v \<inter> B = {}" by simp
  have "set (str_replace k v s) \<inter> B \<subseteq> (set s \<inter> B) - {c}"
    using set_str_replace_single[of c v s] v unfolding k by blast
  moreover have "set (apply_replacements rs (str_replace k v s)) \<inter> B
      \<subseteq> (set (str_replace k v s) \<inter> B) - set (concat (map fst rs))"
    using Cons.prems by (intro Cons.IH) simp
  ultimately show ?case unfolding r apply_replacements_Cons k by auto
qed

lemma apply_replacements_set:
  "\<forall>(k, v) \<in> set rs. length k = 1 \<Longrightarrow>
   set (apply_replacements rs s) \<subseteq> set s \<union> set (concat (map snd rs))"
proof (induction rs arbitrary: s)
  case Nil then show ?case by (simp add: apply_replacements_def)
next
  case (Cons r rs)
  obtain k v where r: "r = (k, v)" by (cases r)
  from Cons.prems r obtain c where k: "k = [c]" by (cases k) auto
  have "set (apply_replacements rs (str_replace k v s)) \<subseteq> set (str_replace k v s) \<union> set (concat (map snd rs))"
    using Cons.prems by (intro Cons.IH) simp
  then show ?case using set_str_replace_single[of c v s] unfolding r apply_replacements_Cons k by auto
qed

lemma replacements_single: "\<forall>(k, v) \<in> set replacements. length k = 1"
  by (simp add: replacements_def)

lemma replacements_basic:
  "\<forall>(k, v) \<in> set replacements. length k = 1 \<and> set v \<inter> set accented_chars = {}"
  by (simp add: replacements_def accented_chars_def lit_def)

lemma replacements_values: "set (concat (map snd replacements)) \<inter> set special_chars = {}"
  by (simp add: replacements_def special_chars_def lit_def)

lemma space_not_special: "32 \<notin> set special_chars" by (simp add: special_chars_def)
lemma space_not_accented: "32 \<notin> set accented_chars" by (simp add: accented_chars_def replacements_def)

lemma remove_special_set: "set (remove_special s) \<inter> set special_chars = {}"
  by (auto simp: remove_special_def)

lemma remove_special_id: "set s \<inter> set special_chars = {} \<Longrightarrow> remove_special s = s"
  unfolding remove_special_def by (rule filter_True) auto

lemma replacements_absent: 
  assumes "set s \<inter> set accented_chars = {}"
  shows "apply_replacements replacements s = s"
proof (rule apply_replacements_absent, clarify)
  fix k v assume kv: "(k, v) \<in> set replacements"
  with replacements_single obtain c where k: "k = [c]" by (cases k) auto
  from kv have "c \<in> set accented_chars" unfolding accented_chars_def k by force
  with assms show "k \<noteq> [] \<and> hd k \<notin> set s" unfolding k by auto
qed

lemma tidy_first_pass:
  "tidy a (if a then apply_replacements replacements (remove_special t) else remove_special t)"
proof (cases a)
  case False then show ?thesis by (simp add: tidy_def remove_special_set)
next
  case True
  let ?r = "remove_special t"
  have "set (apply_replacements replacements ?r) \<subseteq> set ?r \<union> set (concat (map snd replacements))"
    using replacements_single by (rule apply_replacements_set)
  then have s1: "set (apply_replacements replacements ?r) \<inter> set special_chars = {}"
    using remove_special_set[of t] replacements_values by blast
  have "set (apply_replacements replacements ?r) \<inter> set accented_chars
      \<subseteq> (set ?r \<inter> set accented_chars) - set (concat (map fst replacements))"
    using replacements_basic by (rule apply_replacements_keys)
  then have s2: "set (apply_replacements replacements ?r) \<inter> set accented_chars = {}"
    unfolding accented_chars_def by blast
  from True s1 s2 show ?thesis by (simp add: tidy_def)
qed

lemma tidy_strip_sub_spaces: assumes "tidy a s" shows "tidy a (strip (sub_spaces False s))"
proof -
  have "set (strip (sub_spaces False s)) \<subseteq> insert 32 (set s)"
    using set_strip[of "sub_spaces False s"] set_sub_spaces[of False s] by blast
  with assms space_not_special space_not_accented show ?thesis
    unfolding tidy_def by blast
qed

lemma clean_fixpoint:
  assumes t: "tidy a z" and c: "collapsed False z" and s: "strip z = z"
  shows "clean_address_text z a = z"
proof (cases "z = []")
  case True then show ?thesis by (simp add: clean_address_text_def)
next
  case False
  from t have r: "remove_special z = z" by (simp add: tidy_def remove_special_id)
  from t have "a \<Longrightarrow> apply_replacements replacements z = z" by (simp add: tidy_def replacements_absent)
  with r have "(if a then apply_replacements replacements (remove_special z) else remove_special z) = z"
    by simp
  moreover from c have "sub_spaces False z = z" by (rule sub_spaces_collapsed)
  ultimately show ?thesis using False s by (simp add: clean_address_text_def)
qed

text \<open>
  Claim C7. Cleaning is idempotent: for every string \<open>x\<close> and either value of the flag
  \<open>a\<close>, cleaning the cleaned text again gives the cleaned text.
\<close>

theorem clean_address_text_idempotent:
  "clean_address_text (clean_address_text x a) a = clean_address_text x a"
proof (cases "x = []")
  case True then show ?thesis by (simp add: clean_address_text_def)
next
  case False
  let ?c = "if a then apply_replacements replacements (remove_special x) else remove_special x"
  let ?z = "strip (sub_spaces False ?c)"
  from False have z: "clean_address_text x a = ?z" by (simp add: clean_address_text_def)
  have "tidy a ?z" using tidy_first_pass by (rule tidy_strip_sub_spaces)
  moreover have "collapsed False ?z" using collapsed_sub_spaces by (rule collapsed_strip)
  moreover have "strip ?z = ?z" by (rule strip_strip)
  ultimately have "clean_address_text ?z a = ?z" by (rule clean_fixpoint)
  then show ?thesis unfolding z .
qed

section \<open>Evaluation on texts within ASCII\<close>

lemmas ascii_defs = is_ascii_def ascii_upper_letter_def ascii_lower_letter_def ascii_letter_def
  ascii_tolower_def ascii_toupper_def isdigit_def isword_def lower_def upper_def capitalize_def
  title_def lit_def isspace_def

lemma exactly_numeral: "exactly (numeral k) r = Seq r (exactly (pred_numeral k) r)"
  by (simp add: numeral_eq_Suc)

lemma lit_not_Nil: "lit (c # cs) \<noteq> []"
  by (simp add: lit_def)

lemmas match_defs = re_match_def in_class_def char_at_def ascii_upper_letter_def isdigit_def
  isspace_def lit_def exactly_numeral

section \<open>normalize_address_format on the example of the specification\<close>

text \<open>
  Claim C5. \<open>normalize_address_format("c/ gran via 25", "es")\<close> is said to be
  \<open>"Calle Gran Via 25"\<close>. The code gives \<open>"C/ Gran Via 25"\<close>: the pattern for the
  abbreviation \<open>c/\<close> ends in \<open>\b\<close>, and between the slash and the space that follows it there
  is no word boundary, so the abbreviation is not replaced.
\<close>

theorem normalize_c_slash_gran_via:
  "normalize_address_format I (lit ''c/ gran via 25'') (lit ''es'') = lit ''C/ Gran Via 25''"
  by (simp add: normalize_address_format_def ascii_defs strip_def rstrip_def common_abbreviations_def
      normalize_step_def spanish_words_def english_words_def expand_abbreviations_def re_sub_word_def
      match_word_def boundary_def ignorecase_eq_def first_char_def split_def)

section \<open>validate_postal_code on the examples of the specification\<close>

lemma upper_ES: "upper I (lit ''ES'') = lit ''ES''"
  by (simp add: ascii_defs)

lemma upper_CA: "upper I (lit ''CA'') = lit ''CA''"
  by (simp add: ascii_defs)

lemma clean_28013: "upper I (strip (lit ''28013'')) = lit ''28013''"
  by (simp add: ascii_defs strip_def rstrip_def)

lemma clean_123: "upper I (strip (lit ''123'')) = lit ''123''"
  by (simp add: ascii_defs strip_def rstrip_def)

lemma clean_K1A: "upper I (strip (lit ''K1A 0A9'')) = lit ''K1A 0A9''"
  by (simp add: ascii_defs strip_def rstrip_def)

lemma pattern_ES: "map_of postal_patterns (lit ''ES'') = Some (raw [''^'', ''d{5}$''], five_digits)"
  by (simp add: postal_patterns_def)

lemma pattern_CA:
  "map_of postal_patterns (lit ''CA'') =
     Some (raw [''^[A-Z]'', ''d[A-Z]'', ''s?'', ''d[A-Z]'', ''d$''], canadian)"
  by (simp add: postal_patterns_def lit_def)

lemma match_28013: "re_match I five_digits (lit ''28013'')"
  by (simp add: five_digits_def match_defs)

lemma match_123: "\<not> re_match I five_digits (lit ''123'')"
  by (simp add: five_digits_def match_defs)

lemma match_K1A: "re_match I canadian (lit ''K1A 0A9'')"
  by (simp add: canadian_def match_defs)

text \<open>
  Claim C9. With the country given, \<open>28013\<close> is valid for \<open>ES\<close>, \<open>123\<close> is not, and
  \<open>K1A 0A9\<close> is valid for \<open>CA\<close>; each result names the country and carries the one pattern of
  that country as the pattern used.
\<close>

theorem validate_postal_code_examples:
  "validate_postal_code I (PStr (lit ''28013'')) (PStr (lit ''ES'')) =
     Inr [(lit ''is_valid'', PBool True), (lit ''country_code'', PStr (lit ''ES'')),
          (lit ''pattern_used'', PStr (raw [''^'', ''d{5}$''])),
          (lit ''cleaned_postal_code'', PStr (lit ''28013''))] \<and>
   validate_postal_code I (PStr (lit ''123'')) (PStr (lit ''ES'')) =
     Inr [(lit ''is_valid'', PBool False), (lit ''country_code'', PStr (lit ''ES'')),
          (lit ''pattern_used'', PStr (raw [''^'', ''d{5}$''])),
          (lit ''cleaned_postal_code'', PStr (lit ''123''))] \<and>
   validate_postal_code I (PStr (lit ''K1A 0A9'')) (PStr (lit ''CA'')) =
     Inr [(lit ''is_valid'', PBool True), (lit ''country_code'', PStr (lit ''CA'')),
          (lit ''pattern_used'', PStr (raw [''^[A-Z]'', ''d[A-Z]'', ''s?'', ''d[A-Z]'', ''d$''])),
          (lit ''cleaned_postal_code'', PStr (lit ''K1A 0A9''))]"
  by (simp add: validate_postal_code_def known_country_def and_then_def Let_def lit_not_Nil
      upper_ES upper_CA clean_28013 clean_123 clean_K1A pattern_ES pattern_CA
      match_28013 match_123 match_K1A)

section \<open>The report of detect_incomplete_address\<close>

text \<open>
  Claim C6, amended. For every address that is not the empty string, the report is complete
  exactly when nothing is missing, the missing components are a sublist of the four names in
  their fixed order, and the confidence is (4 - number of missing components) / 4. For the
  empty string the report is not complete, misses the one component \<open>address\<close> and has
  confidence 0.
\<close>

theorem detect_incomplete_address_report:
  "(address \<noteq> [] \<longrightarrow>
      (is_complete (detect_incomplete_address I address) \<longleftrightarrow>
         missing_components (detect_incomplete_address I address) = []) \<and>
      subseq (missing_components (detect_incomplete_address I address)) component_names \<and>
      confidence (detect_incomplete_address I address) =
        (4 - real (length (missing_components (detect_incomplete_address I address)))) / 4) \<and>
   detect_incomplete_address I [] =
     \<lparr>is_complete = False, missing_components = [lit ''address''], confidence = 0,
      components_found = None\<rparr>"
  by (simp add: detect_incomplete_address_def component_names_def Let_def)

theorem detect_incomplete_address_report_witness:
  "lit ''Barcelona'' \<noteq> [] \<and>
   (is_complete (detect_incomplete_address ascii_interp (lit ''Barcelona'')) \<longleftrightarrow>
      missing_components (detect_incomplete_address ascii_interp (lit ''Barcelona'')) = []) \<and>
   subseq (missing_components (detect_incomplete_address ascii_interp (lit ''Barcelona''))) component_names \<and>
   confidence (detect_incomplete_address ascii_interp (lit ''Barcelona'')) =
     (4 - real (length (missing_components (detect_incomplete_address ascii_interp (lit ''Barcelona''))))) / 4"
proof -
  have ne: "lit ''Barcelona'' \<noteq> []" by (simp add: lit_def)
  from detect_incomplete_address_report[of "lit ''Barcelona''" ascii_interp] ne show ?thesis by blast
qed

text \<open>
  For the empty string the guard at the head of the function answers with the one missing
  component \<open>address\<close>, which is none of the four, and with confidence 0 and not 3/4.
\<close>

theorem detect_empty_address_counterexample:
  "missing_components (detect_incomplete_address ascii_interp []) = [lit ''address''] \<and>
   \<not> subseq (missing_components (detect_incomplete_address ascii_interp [])) component_names \<and>
   confidence (detect_incomplete_address ascii_interp []) \<noteq>
     (4 - real (length (missing_components (detect_incomplete_address ascii_interp [])))) / 4"
  by (simp add: detect_incomplete_address_def component_names_def lit_def)

section \<open>_merge_address_data\<close>

lemma set_split_from: "w \<in> set (split_from acc s) \<Longrightarrow> set w \<subseteq> set acc \<union> set s"
proof (induction s arbitrary: acc)
  case Nil
  then show ?case by (auto split: if_splits)
next
  case (Cons x xs)
  show ?case
  proof (cases "isspace x")
    case True
    with Cons.prems have "w = acc \<or> w \<in> set (split_from [] xs)" by (auto split: if_splits)
    then show ?thesis using Cons.IH[of "[]"] by auto
  next
    case False
    with Cons.prems have "w \<in> set (split_from (acc @ [x]) xs)" by simp
    then show ?thesis using Cons.IH[of "acc @ [x]"] by auto
  qed
qed

lemma split_from_covers:
  "c \<in> set acc \<or> (c \<in> set s \<and> \<not> isspace c) \<Longrightarrow> \<exists>w \<in> set (split_from acc s). c \<in> set w"
proof (induction s arbitrary: acc)
  case Nil
  then show ?case by auto
next
  case (Cons x xs)
  show ?case
  proof (cases "isspace x")
    case True
    show ?thesis
    proof (cases "c \<in> set acc")
      case True
      with \<open>isspace x\<close> show ?thesis by auto
    next
      case False
      with Cons.prems True have "c \<in> set xs \<and> \<not> isspace c" by auto
      then have "\<exists>w \<in> set (split_from [] xs). c \<in> set w" by (intro Cons.IH) simp
      with True show ?thesis by auto
    qed
  next
    case False
    from Cons.prems False have "c \<in> set (acc @ [x]) \<or> (c \<in> set xs \<and> \<not> isspace c)" by auto
    then have "\<exists>w \<in> set (split_from (acc @ [x]) xs). c \<in> set w" by (rule Cons.IH)
    with False show ?thesis by simp
  qed
qed

lemma split_covers: "c \<in> set s \<Longrightarrow> \<not> isspace c \<Longrightarrow> \<exists>w \<in> set (split s). c \<in> set w"
  unfolding split_def by (rule split_from_covers) simp

lemma set_split: "w \<in> set (split s) \<Longrightarrow> set w \<subseteq> set s"
  unfolding split_def by (drule set_split_from) simp

lemma strip_Nil_iff: "strip s = [] \<longleftrightarrow> (\<forall>c \<in> set s. isspace c)"
proof -
  have "strip s = [] \<longleftrightarrow> (\<forall>c \<in> set (rstrip s). isspace c)"
    by (simp add: strip_def dropWhile_eq_Nil_conv)
  also have "\<dots> \<longleftrightarrow> (\<forall>c \<in> set s. isspace c)"
  proof
    assume a: "\<forall>c \<in> set (rstrip s). isspace c"
    have "s = rstrip s @ rev (takeWhile isspace (rev s))"
      unfolding rstrip_def by (metis rev_append rev_rev_ident takeWhile_dropWhile_id)
    then have "set s = set (rstrip s) \<union> set (takeWhile isspace (rev s))"
      by (metis set_append set_rev)
    with a show "\<forall>c \<in> set s. isspace c" by (auto dest: set_takeWhileD)
  next
    assume "\<forall>c \<in> set s. isspace c"
    then show "\<forall>c \<in> set (rstrip s). isspace c"
      unfolding rstrip_def by (auto dest: set_dropWhileD)
  qed
  finally show ?thesis .
qed

lemma has_digits_iff: "has_digits I s \<longleftrightarrow> (\<exists>c \<in> set s. isdigit I c)"
  by (simp add: has_digits_def list_ex_iff)

text \<open>
  Let no digit be whitespace and let \<open>lower\<close> keep a text with digits a text with
  digits, as holds for Python's tables. Then the test for words of the partial address that
  the full address lacks adds nothing to the test for digits.
\<close>

lemma merge_address_data_cases:
  assumes digit_not_space: "\<And>c. isdigit I c \<Longrightarrow> \<not> isspace c"
    and lower_digits: "\<And>s. has_digits I (lower I s) = has_digits I s"
  shows "merge_address_data I partial_address full_address =
           (if has_digits I partial_address \<and> \<not> has_digits I full_address
            then first_digits I partial_address @ lit '' '' @ full_address
            else full_address)"
proof (cases "has_digits I partial_address \<and> \<not> has_digits I full_address")
  case False
  then show ?thesis by (auto simp: merge_address_data_def Let_def)
next
  case True
  then obtain c where c: "c \<in> set partial_address" "isdigit I c"
    by (auto simp: has_digits_iff)
  with digit_not_space have "\<not> isspace c" by simp
  with c have nonblank: "strip partial_address \<noteq> []" by (auto simp: strip_Nil_iff)
  from True have "has_digits I (lower I partial_address)" by (simp add: lower_digits)
  then obtain d where d: "d \<in> set (lower I partial_address)" "isdigit I d"
    by (auto simp: has_digits_iff)
  with digit_not_space have "\<not> isspace d" by simp
  with d obtain w where w: "w \<in> set (split (lower I partial_address))" "d \<in> set w"
    using split_covers by blast
  have "w \<notin> set (split (lower I full_address))"
  proof
    assume "w \<in> set (split (lower I full_address))"
    then have "set w \<subseteq> set (lower I full_address)" by (rule set_split)
    with w d have "has_digits I (lower I full_address)" by (auto simp: has_digits_iff)
    with True show False by (simp add: lower_digits)
  qed
  with w have "set (split (lower I partial_address)) - set (split (lower I full_address)) \<noteq> {}"
    by blast
  with True nonblank show ?thesis by (simp add: merge_address_data_def Let_def)
qed

lemma ascii_digit_not_space: "isdigit ascii_interp c \<Longrightarrow> \<not> isspace c"
  by (auto simp: isdigit_def ascii_interp_def isspace_def split: if_splits)

lemma ascii_lower_digits: "has_digits ascii_interp (lower ascii_interp s) = has_digits ascii_interp s"
proof (cases "is_ascii s")
  case False
  then show ?thesis by (simp add: lower_def ascii_interp_def)
next
  case True
  have "isdigit ascii_interp (ascii_tolower c) = isdigit ascii_interp c" for c
    by (auto simp: isdigit_def ascii_tolower_def ascii_upper_letter_def ascii_interp_def)
  with True show ?thesis by (simp add: lower_def has_digits_def list_ex_iff)
qed

section \<open>complete_address\<close>

lemma dict_get_dict_set: "dict_get (dict_set d k v) k' = (if k' = k then Some v else dict_get d k')"
  by (induction d) (auto simp: dict_get_def)

lemma and_then_Inr_iff: "and_then m f = Inr r \<longleftrightarrow> (\<exists>v. m = Inr v \<and> f v = Inr r)"
  by (cases m) (auto simp: and_then_def)

lemma and_then_Inl_iff: "and_then m f = Inl e \<longleftrightarrow> m = Inl e \<or> (\<exists>v. m = Inr v \<and> f v = Inl e)"
  by (cases m) (auto simp: and_then_def)

lemma reverse_result_fold:
  "dict_update (initial_result partial)
     [(lit ''completed_address'', merged),
      (lit ''method_used'', PStr (lit ''reverse_geocoding'')),
      (lit ''confidence'', PFloat (Finite (9 / 10))),
      (lit ''components'', components)] =
   reverse_result partial merged components"
  by (simp add: reverse_result_def)

lemma reverse_strategy_returns:
  assumes "reverse_strategy I G partial coordinates language c a (initial_result partial) w = (Inr (Some result), w')"
  shows "\<exists>merged components. result = reverse_result partial merged components"
  using assms
  by (auto simp: reverse_strategy_def ret_def seq_def lift_def reverse_result_fold and_then_Inr_iff
      split: option.splits prod.splits sum.splits list.splits; blast)

lemma forward_result_fold:
  "dict_update (initial_result partial)
     [(lit ''completed_address'', full),
      (lit ''method_used'', PStr (lit ''forward_geocoding'')),
      (lit ''confidence'', PFloat (float_min conf (Finite (4 / 5)))),
      (lit ''components'', components),
      (lit ''coordinates'', PDict [(lit ''lat'', lat), (lit ''lng'', lng)])] =
   forward_result partial full conf components lat lng"
  by (simp add: forward_result_def)

lemma forward_strategy_returns:
  assumes "forward_strategy G p language c a (initial_result partial) w = (Inr result, w')"
  shows "result = initial_result partial \<or>
         (\<exists>full conf components lat lng. result = forward_result partial full conf components lat lng)"
  using assms
  by (auto simp: forward_strategy_def ret_def seq_def lift_def forward_result_fold and_then_Inr_iff
      split: option.splits prod.splits sum.splits list.splits if_splits; blast)

lemma complete_address_cases:
  "(\<exists>e. fst (complete_try I G (PStr p) coordinates language c a w) = Inl e \<and>
        fst (complete_address I G (PStr p) coordinates language c a w) = error_result I (PStr p) e) \<or>
   (\<exists>merged components.
        fst (complete_address I G (PStr p) coordinates language c a w) = reverse_result (PStr p) merged components) \<or>
   fst (complete_address I G (PStr p) coordinates language c a w) =
     dict_set (initial_result (PStr p)) (lit ''suggestions'')
       (PList (map PStr (suggest_address_corrections I p 3))) \<or>
   (\<exists>full conf components lat lng.
      fst (complete_address I G (PStr p) coordinates language c a w) =
        dict_set (forward_result (PStr p) full conf components lat lng) (lit ''suggestions'')
          (PList (map PStr (suggest_address_corrections I p 3))))"
proof (cases "complete_try I G (PStr p) coordinates language c a w")
  case (Pair outcome w')
  show ?thesis
  proof (cases outcome)
    case (Inl e)
    with Pair show ?thesis by (simp add: complete_address_def error_result_def)
  next
    case (Inr result)
    with Pair have r: "fst (complete_address I G (PStr p) coordinates language c a w) = result"
      by (simp add: complete_address_def)
    obtain early w1 where rs: "reverse_strategy I G (PStr p) coordinates language c a (initial_result (PStr p)) w = (early, w1)"
      by (cases "reverse_strategy I G (PStr p) coordinates language c a (initial_result (PStr p)) w")
    show ?thesis
    proof (cases early)
      case (Inl e)
      with rs Pair Inr show ?thesis by (simp add: complete_try_def seq_def)
    next
      case (Inr returned)
      note early = this
      show ?thesis
      proof (cases returned)
        case (Some res)
        with rs early Pair \<open>outcome = Inr result\<close> have "res = result"
          by (simp add: complete_try_def seq_def ret_def)
        with rs early Some reverse_strategy_returns[of I G "PStr p" coordinates language c a w result w1]
        show ?thesis unfolding r by blast
      next
        case None
        obtain fo w2 where fs: "forward_strategy G p language c a (initial_result (PStr p)) w1 = (fo, w2)"
          by (cases "forward_strategy G p language c a (initial_result (PStr p)) w1")
        show ?thesis
        proof (cases fo)
          case (Inl e)
          with rs early None fs Pair \<open>outcome = Inr result\<close> show ?thesis
            by (simp add: complete_try_def seq_def ret_def)
        next
          case (Inr res)
          with rs early None fs Pair \<open>outcome = Inr result\<close>
          have "result = dict_set res (lit ''suggestions'') (PList (map PStr (suggest_address_corrections I p 3)))"
            by (simp add: complete_try_def seq_def ret_def)
          with forward_strategy_returns[of G p language c a "PStr p" w1 res w2] fs Inr
          show ?thesis unfolding r by blast
        qed
      qed
    qed
  qed
qed

lemmas result_defs = error_result_def reverse_result_def forward_result_def initial_result_def
  dict_update_def dict_get_def lit_def

lemma error_result_fields:
  "dict_get (error_result I x e) (lit ''error'') = Some (PStr (exn_str I e))"
  "dict_get (error_result I x e) (lit ''method_used'') = Some (PStr (lit ''error''))"
  "dict_get (error_result I x e) (lit ''suggestions'') = Some (PList [])"
  "dict_get (error_result I x e) (lit ''original_address'') = Some x"
  by (simp_all add: result_defs)

lemma reverse_result_fields:
  "dict_get (reverse_result x m cs) (lit ''method_used'') = Some (PStr (lit ''reverse_geocoding''))"
  "dict_get (reverse_result x m cs) (lit ''confidence'') = Some (PFloat (Finite (9 / 10)))"
  "dict_get (reverse_result x m cs) (lit ''suggestions'') = Some (PList [])"
  "dict_get (reverse_result x m cs) (lit ''completed_address'') = Some m"
  "dict_get (reverse_result x m cs) (lit ''original_address'') = Some x"
  "dict_get (reverse_result x m cs) (lit ''error'') = None"
  by (simp_all add: result_defs)

lemma none_result_fields:
  "dict_get (dict_set (initial_result x) (lit ''suggestions'') S) (lit ''method_used'') = Some (PStr (lit ''none''))"
  "dict_get (dict_set (initial_result x) (lit ''suggestions'') S) (lit ''suggestions'') = Some S"
  "dict_get (dict_set (initial_result x) (lit ''suggestions'') S) (lit ''original_address'') = Some x"
  "dict_get (dict_set (initial_result x) (lit ''suggestions'') S) (lit ''error'') = None"
  by (simp_all add: result_defs)

lemma forward_result_fields:
  "dict_get (dict_set (forward_result x f cf cs la lo) (lit ''suggestions'') S) (lit ''method_used'') =
     Some (PStr (lit ''forward_geocoding''))"
  "dict_get (dict_set (forward_result x f cf cs la lo) (lit ''suggestions'') S) (lit ''suggestions'') = Some S"
  "dict_get (dict_set (forward_result x f cf cs la lo) (lit ''suggestions'') S) (lit ''original_address'') = Some x"
  "dict_get (dict_set (forward_result x f cf cs la lo) (lit ''suggestions'') S) (lit ''error'') = None"
  by (simp_all add: result_defs)

lemma method_names_differ:
  "lit ''none'' \<noteq> lit ''error''" "lit ''forward_geocoding'' \<noteq> lit ''error''"
  "lit ''reverse_geocoding'' \<noteq> lit ''error''" "lit ''reverse_geocoding'' \<noteq> lit ''none''"
  "lit ''reverse_geocoding'' \<noteq> lit ''forward_geocoding''" "lit ''none'' \<noteq> lit ''forward_geocoding''"
  by (simp_all add: lit_def)

lemma provider_raises_complete_try:
  assumes "provider_raises G p coordinates language c w e"
  shows "fst (complete_try I G (PStr p) coordinates language c a w) = Inl e"
  using assms
  by (auto simp: provider_raises_def complete_try_def reverse_strategy_def forward_strategy_def
      seq_def ret_def lift_def split: option.splits prod.splits sum.splits list.splits)

text \<open>
  Claim C1. For every string \<open>p\<close>, every optional pair of coordinates, every language and
  flags and every provider, \<open>complete_address\<close> returns a dictionary that holds the original
  address and one of the four methods. Whenever the body of its \<open>try\<close> raises, and so
  whenever a call to the provider raises, the dictionary holds the message of the exception
  under \<open>error\<close> and \<open>method_used\<close> is \<open>error\<close>; the message of an exception of the
  provider is the one it was raised with.
\<close>

theorem complete_address_never_raises:
  "dict_get (fst (complete_address I G (PStr p) coordinates language c a w)) (lit ''original_address'') =
     Some (PStr p) \<and>
   dict_get (fst (complete_address I G (PStr p) coordinates language c a w)) (lit ''method_used'') \<in>
     {Some (PStr (lit ''none'')), Some (PStr (lit ''reverse_geocoding'')),
      Some (PStr (lit ''forward_geocoding'')), Some (PStr (lit ''error''))} \<and>
   (\<forall>e. fst (complete_try I G (PStr p) coordinates language c a w) = Inl e \<or>
        provider_raises G p coordinates language c w e \<longrightarrow>
      dict_get (fst (complete_address I G (PStr p) coordinates language c a w)) (lit ''error'') =
        Some (PStr (exn_str I e)) \<and>
      dict_get (fst (complete_address I G (PStr p) coordinates language c a w)) (lit ''method_used'') =
        Some (PStr (lit ''error''))) \<and>
   (\<forall>m. exn_str I (Raised m) = m)"
proof -
  let ?r = "fst (complete_address I G (PStr p) coordinates language c a w)"
  have a: "dict_get ?r (lit ''original_address'') = Some (PStr p)"
    using complete_address_cases[of I G p coordinates language c a w]
    by (auto simp: error_result_fields reverse_result_fields none_result_fields forward_result_fields)
  have b: "dict_get ?r (lit ''method_used'') \<in>
     {Some (PStr (lit ''none'')), Some (PStr (lit ''reverse_geocoding'')),
      Some (PStr (lit ''forward_geocoding'')), Some (PStr (lit ''error''))}"
    using complete_address_cases[of I G p coordinates language c a w]
    by (auto simp: error_result_fields reverse_result_fields none_result_fields forward_result_fields)
  have c: "dict_get ?r (lit ''error'') = Some (PStr (exn_str I e)) \<and>
           dict_get ?r (lit ''method_used'') = Some (PStr (lit ''error''))"
    if "fst (complete_try I G (PStr p) coordinates language c a w) = Inl e" for e
  proof -
    from that have "?r = error_result I (PStr p) e"
      by (cases "complete_try I G (PStr p) coordinates language c a w")
         (simp add: complete_address_def error_result_def)
    then show ?thesis by (simp add: error_result_fields)
  qed
  have d: "exn_str I (Raised m) = m" for m by (simp add: exn_str_def)
  from a b c d provider_raises_complete_try[of G p coordinates language c w _ I a]
  show ?thesis by blast
qed

lemma failing_raises:
  "provider_raises failing_geocoder (lit ''callle mayor'') None (lit ''es'') False 0
     (Raised (lit ''quota exceeded''))"
  by (simp add: provider_raises_def failing_geocoder_def strip_Nil_iff lit_def isspace_def)

theorem complete_address_never_raises_witness:
  "provider_raises failing_geocoder (lit ''callle mayor'') None (lit ''es'') False 0
     (Raised (lit ''quota exceeded'')) \<and>
   dict_get (fst (complete_address ascii_interp failing_geocoder (PStr (lit ''callle mayor'')) None
                    (lit ''es'') False False 0)) (lit ''error'') =
     Some (PStr (lit ''quota exceeded'')) \<and>
   dict_get (fst (complete_address ascii_interp failing_geocoder (PStr (lit ''callle mayor'')) None
                    (lit ''es'') False False 0)) (lit ''method_used'') =
     Some (PStr (lit ''error''))"
proof -
  let ?r = "fst (complete_address ascii_interp failing_geocoder (PStr (lit ''callle mayor'')) None
                    (lit ''es'') False False 0)"
  from complete_address_never_raises[of ascii_interp failing_geocoder "lit ''callle mayor''" None
      "lit ''es''" False False 0] failing_raises
  have "dict_get ?r (lit ''error'') =
          Some (PStr (exn_str ascii_interp (Raised (lit ''quota exceeded'')))) \<and>
        dict_get ?r (lit ''method_used'') = Some (PStr (lit ''error''))"
    by blast
  with failing_raises show ?thesis by (simp add: exn_str_def)
qed

text \<open>
  Claim C2, amended. When the result says \<open>none\<close> or \<open>forward_geocoding\<close> (no strategy
  fired, or the forward lookup was used), \<open>suggestions\<close> is
  \<open>suggest_address_corrections(partial)\<close>; when it says \<open>error\<close>, \<open>suggestions\<close> is the
  empty list it was initialised with.
\<close>

theorem complete_address_suggestions:
  "(dict_get (fst (complete_address I G (PStr p) coordinates language c a w)) (lit ''method_used'') =
      Some (PStr (lit ''none'')) \<or>
    dict_get (fst (complete_address I G (PStr p) coordinates language c a w)) (lit ''method_used'') =
      Some (PStr (lit ''forward_geocoding'')) \<longrightarrow>
    dict_get (fst (complete_address I G (PStr p) coordinates language c a w)) (lit ''suggestions'') =
      Some (PList (map PStr (suggest_address_corrections I p 3)))) \<and>
   (dict_get (fst (complete_address I G (PStr p) coordinates language c a w)) (lit ''method_used'') =
      Some (PStr (lit ''error'')) \<longrightarrow>
    dict_get (fst (complete_address I G (PStr p) coordinates language c a w)) (lit ''suggestions'') =
      Some (PList []))"
  using complete_address_cases[of I G p coordinates language c a w]
  by (auto simp: error_result_fields reverse_result_fields none_result_fields forward_result_fields
      method_names_differ method_names_differ[symmetric])

lemma madrid_forward:
  "dict_get (fst (complete_address ascii_interp madrid_geocoder (PStr (lit ''callle mayor'')) None
               (lit ''es'') False False 0)) (lit ''method_used'') = Some (PStr (lit ''forward_geocoding''))"
  by (simp add: complete_address_def complete_try_def reverse_strategy_def forward_strategy_def
      seq_def ret_def lift_def and_then_def madrid_geocoder_def madrid_def getitem_def get_method_def
      get_or_def div_by_ten_def fits_float_def clean_candidate_def strip_Nil_iff isspace_def
      madrid_fields_def
      dict_get_dict_set result_defs)

lemma failing_error:
  "dict_get (fst (complete_address ascii_interp failing_geocoder (PStr (lit ''callle mayor'')) None
               (lit ''es'') False False 0)) (lit ''method_used'') = Some (PStr (lit ''error''))"
  by (simp add: complete_address_def complete_try_def reverse_strategy_def forward_strategy_def
      seq_def ret_def lift_def failing_geocoder_def strip_Nil_iff isspace_def
      dict_get_dict_set result_defs)

theorem complete_address_suggestions_witness:
  "dict_get (fst (complete_address ascii_interp madrid_geocoder (PStr (lit ''callle mayor'')) None
               (lit ''es'') False False 0)) (lit ''suggestions'') =
     Some (PList (map PStr (suggest_address_corrections ascii_interp (lit ''callle mayor'') 3))) \<and>
   dict_get (fst (complete_address ascii_interp failing_geocoder (PStr (lit ''callle mayor'')) None
               (lit ''es'') False False 0)) (lit ''suggestions'') = Some (PList [])"
  using complete_address_suggestions[of ascii_interp madrid_geocoder "lit ''callle mayor''" None
      "lit ''es''" False False 0]
    complete_address_suggestions[of ascii_interp failing_geocoder "lit ''callle mayor''" None
      "lit ''es''" False False 0]
    madrid_forward failing_error
  by blast

lemma normalize_callle:
  "normalize_address_format ascii_interp (lit ''callle mayor'') (lit ''es'') = lit ''Callle Mayor''"
  by (simp add: normalize_address_format_def ascii_defs strip_def rstrip_def common_abbreviations_def
      normalize_step_def spanish_words_def english_words_def expand_abbreviations_def re_sub_word_def
      match_word_def boundary_def ignorecase_eq_def first_char_def split_def)

lemma corrections_callle:
  "snd (foldl (correction_step ascii_interp) (lower ascii_interp (lit ''callle mayor''), []) common_corrections) =
     [lit ''Calle Mayor'']"
  by (simp add: common_corrections_def correction_step_def str_replace_def ascii_defs)

lemma suggest_callle:
  "suggest_address_corrections ascii_interp (lit ''callle mayor'') 3 =
     [lit ''Calle Mayor'', lit ''Callle Mayor'']"
proof -
  have "lit ''callle mayor'' \<noteq> []" "lit ''Callle Mayor'' \<noteq> lit ''callle mayor''"
    "lit ''Callle Mayor'' \<noteq> lit ''Calle Mayor''"
    by (simp_all add: lit_def)
  then show ?thesis
    by (simp add: suggest_address_corrections_def Let_def corrections_callle normalize_callle slice_to_def)
qed

text \<open>
  With a provider that raises, the suggestions stay empty although the corrections of the
  partial address are not.
\<close>

theorem complete_address_suggestions_counterexample:
  "dict_get (fst (complete_address ascii_interp failing_geocoder (PStr (lit ''callle mayor'')) None
               (lit ''es'') False False 0)) (lit ''suggestions'') = Some (PList []) \<and>
   suggest_address_corrections ascii_interp (lit ''callle mayor'') 3 =
     [lit ''Calle Mayor'', lit ''Callle Mayor'']"
proof -
  have "dict_get (fst (complete_address ascii_interp failing_geocoder (PStr (lit ''callle mayor'')) None
               (lit ''es'') False False 0)) (lit ''suggestions'') = Some (PList [])"
    by (simp add: complete_address_def complete_try_def reverse_strategy_def forward_strategy_def
      seq_def ret_def lift_def failing_geocoder_def strip_Nil_iff isspace_def
      dict_get_dict_set result_defs)
  with suggest_callle show ?thesis by simp
qed

text \<open>
  Claim C8. Coordinates are given and the reverse lookup returns a list whose first
  candidate is a dictionary with a string under \<open>formatted\<close> and, if it has
  \<open>components\<close>, a dictionary there. Then the method is \<open>reverse_geocoding\<close> and the
  confidence 0.9, whatever the candidate holds under \<open>confidence\<close>; the world is left as the
  reverse lookup left it, and the outcome does not depend on the forward lookup of the
  provider, which is not called.
\<close>

theorem complete_address_reverse_geocoding:
  assumes rev: "reverse_geocode G lat lng (Some language) c w = (Inr (PDict d # rest), w')"
    and formatted: "dict_get d (lit ''formatted'') = Some (PStr f)"
    and components: "get_or d (lit ''components'') (PDict []) = PDict cs"
  shows "dict_get (fst (complete_address I G (PStr p) (Some (lat, lng)) language c a w))
           (lit ''method_used'') = Some (PStr (lit ''reverse_geocoding'')) \<and>
         dict_get (fst (complete_address I G (PStr p) (Some (lat, lng)) language c a w))
           (lit ''confidence'') = Some (PFloat (Finite (9 / 10))) \<and>
         snd (complete_address I G (PStr p) (Some (lat, lng)) language c a w) = w' \<and>
         (\<forall>g. complete_address I (G\<lparr>geocode := g\<rparr>) (PStr p) (Some (lat, lng)) language c a w =
              complete_address I G (PStr p) (Some (lat, lng)) language c a w)"
proof -
  have "\<exists>full cs'. clean_candidate c a (PStr f) (PDict cs) = Inr (PStr full, PDict cs')"
    by (simp add: clean_candidate_def clean_value_def clean_components_def and_then_def)
  then obtain full cs' where cc: "clean_candidate c a (PStr f) (PDict cs) = Inr (PStr full, PDict cs')"
    by blast
  have "\<exists>m. merge_values I (PStr p) (PStr full) = Inr m"
    by (simp add: merge_values_def)
  then obtain m where m: "merge_values I (PStr p) (PStr full) = Inr m" by blast
  have rs: "reverse_strategy I H (PStr p) (Some (lat, lng)) language c a (initial_result (PStr p)) w =
          (Inr (Some (reverse_result (PStr p) m (PDict cs'))), w')"
    if "reverse_geocode H = reverse_geocode G" for H :: "'a geocoder"
    using that rev formatted components cc m
    by (simp add: reverse_strategy_def seq_def lift_def and_then_def getitem_def get_method_def
        reverse_result_fold)
  have ca: "complete_address I H (PStr p) (Some (lat, lng)) language c a w =
          (reverse_result (PStr p) m (PDict cs'), w')"
    if "reverse_geocode H = reverse_geocode G" for H :: "'a geocoder"
    using rs[OF that] by (simp add: complete_address_def complete_try_def seq_def ret_def)
  have "complete_address I (G\<lparr>geocode := g\<rparr>) (PStr p) (Some (lat, lng)) language c a w =
        complete_address I G (PStr p) (Some (lat, lng)) language c a w" for g
    using ca[of G] ca[of "G\<lparr>geocode := g\<rparr>"] by simp
  with ca[of G] show ?thesis by (simp add: reverse_result_fields)
qed

theorem complete_address_reverse_geocoding_witness:
  "dict_get (fst (complete_address ascii_interp madrid_geocoder (PStr [])
               (Some (PFloat (Finite (404 / 10)), PFloat (Finite (- 37 / 10)))) (lit ''es'') False False 0))
     (lit ''method_used'') = Some (PStr (lit ''reverse_geocoding'')) \<and>
   dict_get (fst (complete_address ascii_interp madrid_geocoder (PStr [])
               (Some (PFloat (Finite (404 / 10)), PFloat (Finite (- 37 / 10)))) (lit ''es'') False False 0))
     (lit ''confidence'') = Some (PFloat (Finite (9 / 10))) \<and>
   dict_get madrid_fields (lit ''confidence'') = Some (PInt 3)"
proof -
  have rev: "reverse_geocode madrid_geocoder (PFloat (Finite (404 / 10))) (PFloat (Finite (- 37 / 10)))
               (Some (lit ''es'')) False 0 = (Inr (PDict madrid_fields # []), Suc 0)"
    by (simp add: madrid_geocoder_def madrid_def)
  have formatted: "dict_get madrid_fields (lit ''formatted'') = Some (PStr (lit ''Gran Via 7, Madrid''))"
    by (simp add: madrid_fields_def dict_get_def)
  have components: "get_or madrid_fields (lit ''components'') (PDict []) =
      PDict [(lit ''city'', PStr (lit ''Madrid'')), (lit ''postcode'', PStr (lit ''28013'')),
             (lit ''country_code'', PStr (lit ''es''))]"
    by (simp add: madrid_fields_def get_or_def dict_get_def lit_def)
  have confidence: "dict_get madrid_fields (lit ''confidence'') = Some (PInt 3)"
    by (simp add: madrid_fields_def dict_get_def lit_def)
  from complete_address_reverse_geocoding[OF rev formatted components, of ascii_interp "[]" False]
    confidence
  show ?thesis by blast
qed

section \<open>The completed address of the strategy with coordinates\<close>

lemma reverse_completed_address:
  assumes rev: "reverse_geocode G lat lng (Some language) c w = (Inr (PDict d # rest), w')"
    and formatted: "dict_get d (lit ''formatted'') = Some (PStr f)"
    and components: "get_or d (lit ''components'') (PDict []) = PDict cs"
  shows "dict_get (fst (complete_address I G (PStr p) (Some (lat, lng)) language c a w))
           (lit ''completed_address'') =
         Some (PStr (merge_address_data I p (if c then clean_address_text f a else f)))"
proof -
  let ?full = "if c then clean_address_text f a else f"
  have "\<exists>cs'. clean_candidate c a (PStr f) (PDict cs) = Inr (PStr ?full, PDict cs')"
    by (simp add: clean_candidate_def clean_value_def clean_components_def and_then_def
        clean_address_text_def)
  then obtain cs' where cc: "clean_candidate c a (PStr f) (PDict cs) = Inr (PStr ?full, PDict cs')"
    by blast
  have m: "merge_values I (PStr p) (PStr ?full) = Inr (PStr (merge_address_data I p ?full))"
    by (simp add: merge_values_def merge_address_data_def)
  have "reverse_strategy I G (PStr p) (Some (lat, lng)) language c a (initial_result (PStr p)) w =
          (Inr (Some (reverse_result (PStr p) (PStr (merge_address_data I p ?full)) (PDict cs'))), w')"
    using rev formatted components cc m
    by (simp add: reverse_strategy_def seq_def lift_def and_then_def getitem_def get_method_def
        reverse_result_fold)
  then have "fst (complete_address I G (PStr p) (Some (lat, lng)) language c a w) =
          reverse_result (PStr p) (PStr (merge_address_data I p ?full)) (PDict cs')"
    by (simp add: complete_address_def complete_try_def seq_def ret_def)
  then show ?thesis by (simp add: reverse_result_fields)
qed

text \<open>
  Claim C4, amended. Coordinates are given and the reverse lookup returns a list whose first
  candidate is a dictionary with a string under \<open>formatted\<close> and, if it has
  \<open>components\<close>, a dictionary there. Let the full address be the formatted address,
  cleaned by \<open>clean_address_text\<close> when \<open>clean_special_chars\<close> is set. Let no
  digit be whitespace and let \<open>lower\<close> keep a text with digits a text with digits, as
  holds for Python's tables. When the partial address has a digit and the full address has
  no digit at all, the completed address is the first run of digits of the partial address,
  a space, and the full address; in every other case it is the full address as it stands.
\<close>

theorem complete_address_merged_address:
  assumes rev: "reverse_geocode G lat lng (Some language) c w = (Inr (PDict d # rest), w')"
    and formatted: "dict_get d (lit ''formatted'') = Some (PStr f)"
    and components: "get_or d (lit ''components'') (PDict []) = PDict cs"
    and full: "full = (if c then clean_address_text f a else f)"
    and digit_not_space: "\<And>x. isdigit I x \<Longrightarrow> \<not> isspace x"
    and lower_digits: "\<And>s. has_digits I (lower I s) = has_digits I s"
  shows "dict_get (fst (complete_address I G (PStr p) (Some (lat, lng)) language c a w))
           (lit ''completed_address'') =
         Some (PStr (if has_digits I p \<and> \<not> has_digits I full
                     then first_digits I p @ lit '' '' @ full
                     else full))"
  using reverse_completed_address[OF rev formatted components, of I p a]
    merge_address_data_cases[of I p full, OF digit_not_space lower_digits]
  unfolding full by simp

lemma street_reverse:
  "reverse_geocode street_geocoder lat lng (Some (lit ''es'')) c 0 =
     (Inr (PDict street_fields # []), Suc 0)"
  by (simp add: street_geocoder_def)

lemma street_formatted: "dict_get street_fields (lit ''formatted'') = Some (PStr (lit ''Gran Via (Madrid)''))"
  by (simp add: street_fields_def dict_get_def)

lemma street_components:
  "get_or street_fields (lit ''components'') (PDict []) =
     PDict [(lit ''road'', PStr (lit ''Gran Via'')), (lit ''city'', PStr (lit ''Madrid''))]"
  by (simp add: street_fields_def get_or_def dict_get_def lit_def)

lemma street_cleaned: "clean_address_text (lit ''Gran Via (Madrid)'') False = lit ''Gran Via Madrid''"
  by (simp add: clean_address_text_def remove_special_def special_chars_def strip_def rstrip_def
      isspace_def lit_def)

theorem complete_address_merged_address_witness:
  "dict_get (fst (complete_address ascii_interp street_geocoder (PStr (lit ''25 gran via''))
               (Some (PFloat (Finite (404 / 10)), PFloat (Finite (- 37 / 10)))) (lit ''es'') False False 0))
     (lit ''completed_address'') = Some (PStr (lit ''25 Gran Via (Madrid)'')) \<and>
   dict_get (fst (complete_address ascii_interp street_geocoder (PStr (lit ''25 gran via''))
               (Some (PFloat (Finite (404 / 10)), PFloat (Finite (- 37 / 10)))) (lit ''es'') True False 0))
     (lit ''completed_address'') = Some (PStr (lit ''25 Gran Via Madrid'')) \<and>
   dict_get (fst (complete_address ascii_interp street_geocoder (PStr (lit ''gran via''))
               (Some (PFloat (Finite (404 / 10)), PFloat (Finite (- 37 / 10)))) (lit ''es'') False False 0))
     (lit ''completed_address'') = Some (PStr (lit ''Gran Via (Madrid)''))"
proof -
  have full: "lit ''Gran Via (Madrid)'' =
      (if False then clean_address_text (lit ''Gran Via (Madrid)'') False else lit ''Gran Via (Madrid)'')"
    by simp
  have cleaned: "lit ''Gran Via Madrid'' =
      (if True then clean_address_text (lit ''Gran Via (Madrid)'') False else lit ''Gran Via (Madrid)'')"
    by (simp add: street_cleaned)
  have 1: "has_digits ascii_interp (lit ''25 gran via'')"
    by (simp add: has_digits_def isdigit_def lit_def)
  have 2: "\<not> has_digits ascii_interp (lit ''Gran Via (Madrid)'')"
    "\<not> has_digits ascii_interp (lit ''Gran Via Madrid'')"
    by (simp_all add: has_digits_def isdigit_def lit_def)
  have 3: "first_digits ascii_interp (lit ''25 gran via'') @ lit '' '' @ lit ''Gran Via (Madrid)'' =
           lit ''25 Gran Via (Madrid)''"
    "first_digits ascii_interp (lit ''25 gran via'') @ lit '' '' @ lit ''Gran Via Madrid'' =
           lit ''25 Gran Via Madrid''"
    by (simp_all add: first_digits_def isdigit_def lit_def)
  have 4: "\<not> has_digits ascii_interp (lit ''gran via'')"
    by (simp add: has_digits_def isdigit_def lit_def)
  from complete_address_merged_address[OF street_reverse street_formatted street_components full
      ascii_digit_not_space ascii_lower_digits, where p = "lit ''25 gran via''"]
    complete_address_merged_address[OF street_reverse street_formatted street_components cleaned
      ascii_digit_not_space ascii_lower_digits, where p = "lit ''25 gran via''"]
    complete_address_merged_address[OF street_reverse street_formatted street_components full
      ascii_digit_not_space ascii_lower_digits, where p = "lit ''gran via''"]
    1 2 3 4
  show ?thesis by simp
qed

lemma madrid_reverse:
  "reverse_geocode madrid_geocoder lat lng (Some (lit ''es'')) False 0 =
     (Inr (PDict madrid_fields # []), Suc 0)"
  by (simp add: madrid_geocoder_def madrid_def)

lemma madrid_formatted:
  "dict_get madrid_fields (lit ''formatted'') = Some (PStr (lit ''Gran Via 7, Madrid''))"
  by (simp add: madrid_fields_def dict_get_def)

lemma madrid_components:
  "get_or madrid_fields (lit ''components'') (PDict []) =
     PDict [(lit ''city'', PStr (lit ''Madrid'')), (lit ''postcode'', PStr (lit ''28013'')),
            (lit ''country_code'', PStr (lit ''es''))]"
  by (simp add: madrid_fields_def get_or_def dict_get_def lit_def)

text \<open>
  The digits 25 of the partial address do not occur in the formatted address, and yet they
  are not put before it: the formatted address has a digit of its own.
\<close>

theorem complete_address_merged_address_counterexample:
  "first_digits ascii_interp (lit ''25 gran via'') = lit ''25'' \<and>
   \<not> contains (lit ''25'') (lit ''Gran Via 7, Madrid'') \<and>
   dict_get madrid_fields (lit ''formatted'') = Some (PStr (lit ''Gran Via 7, Madrid'')) \<and>
   dict_get (fst (complete_address ascii_interp madrid_geocoder (PStr (lit ''25 gran via''))
               (Some (PFloat (Finite (404 / 10)), PFloat (Finite (- 37 / 10)))) (lit ''es'') False False 0))
     (lit ''completed_address'') = Some (PStr (lit ''Gran Via 7, Madrid'')) \<and>
   lit ''Gran Via 7, Madrid'' \<noteq> lit ''25'' @ lit '' '' @ lit ''Gran Via 7, Madrid''"
proof -
  have 1: "first_digits ascii_interp (lit ''25 gran via'') = lit ''25''"
    by (simp add: first_digits_def isdigit_def lit_def)
  have 2: "\<not> contains (lit ''25'') (lit ''Gran Via 7, Madrid'')"
    by (simp add: lit_def)
  have 3: "has_digits ascii_interp (lit ''Gran Via 7, Madrid'')"
    by (simp add: has_digits_def isdigit_def lit_def)
  have 4: "merge_address_data ascii_interp (lit ''25 gran via'') (lit ''Gran Via 7, Madrid'') =
     lit ''Gran Via 7, Madrid''"
    using 3 by (simp add: merge_address_data_def Let_def)
  have 5: "lit ''Gran Via 7, Madrid'' \<noteq> lit ''25'' @ lit '' '' @ lit ''Gran Via 7, Madrid''"
    by (simp add: lit_def)
  from reverse_completed_address[OF madrid_reverse madrid_formatted madrid_components,
      where I = ascii_interp and p = "lit ''25 gran via''" and a = False] 4
  have 6: "dict_get (fst (complete_address ascii_interp madrid_geocoder (PStr (lit ''25 gran via''))
               (Some (PFloat (Finite (404 / 10)), PFloat (Finite (- 37 / 10)))) (lit ''es'') False False 0))
     (lit ''completed_address'') = Some (PStr (lit ''Gran Via 7, Madrid''))"
    by simp
  from 1 2 madrid_formatted 4 5 6 show ?thesis by blast
qed

section \<open>enrich_location_data on the equator and the prime meridian\<close>

lemma resolve_coordinates_state:
  assumes "resolve_coordinates G address_data coordinates (address_data, w) = (Inr (lat, lng), d1, w1)"
  shows "d1 = address_data \<or> (\<exists>v. d1 = dict_set address_data (lit ''coordinates'') v)"
  using assms
  by (auto simp: resolve_coordinates_def ret_def seq_def lift_def world_def assign_def
      split: option.splits prod.splits sum.splits list.splits if_splits)

lemma resolve_coordinates_reverse:
  "resolve_coordinates (G\<lparr>reverse_geocode := r\<rparr>) address_data coordinates =
   resolve_coordinates G address_data coordinates"
  by (auto simp: resolve_coordinates_def split: option.splits)

lemma enrich_without_lookup:
  assumes res: "resolve_coordinates G address_data coordinates (address_data, w) = (Inr (lat, lng), d1, w1)"
    and zero: "lat = PFloat (Finite 0) \<or> lng = PFloat (Finite 0)"
    and n: "now H = now G"
    and r: "resolve_coordinates H address_data coordinates = resolve_coordinates G address_data coordinates"
  shows "enrich_location_data I H address_data coordinates c a w =
           (stamped d1 (fst (now G w1)), snd (now G w1))"
proof -
  from zero have f: "(truthy lat \<and> truthy lng) = False" by auto
  obtain t w2 where t: "now G w1 = (t, w2)" by (cases "now G w1")
  with res n r show ?thesis
    by (simp add: enrich_location_data_def enrich_try_def seq_def ret_def world_def assign_def
        stamped_def f)
qed

lemma stamped_fields:
  "dict_get (stamped d t) (lit ''timezone'') = dict_get d (lit ''timezone'')"
  "dict_get (stamped d t) (lit ''administrative_levels'') = dict_get d (lit ''administrative_levels'')"
  "dict_get (stamped d t) (lit ''geographic_info'') = dict_get d (lit ''geographic_info'')"
  "dict_get (stamped d t) (lit ''quality_info'') = dict_get d (lit ''quality_info'')"
  by (simp_all add: stamped_def dict_get_dict_set lit_def)

lemma coordinates_fields:
  "dict_get (dict_set d (lit ''coordinates'') v) (lit ''timezone'') = dict_get d (lit ''timezone'')"
  "dict_get (dict_set d (lit ''coordinates'') v) (lit ''administrative_levels'') = dict_get d (lit ''administrative_levels'')"
  "dict_get (dict_set d (lit ''coordinates'') v) (lit ''geographic_info'') = dict_get d (lit ''geographic_info'')"
  "dict_get (dict_set d (lit ''coordinates'') v) (lit ''quality_info'') = dict_get d (lit ''quality_info'')"
  by (simp_all add: dict_get_dict_set lit_def)

text \<open>
  Claim C10. When the coordinates that \<open>enrich_location_data\<close> resolves (the argument, or
  the geometry found by the forward lookup) have a latitude or a longitude equal to 0.0, the
  result is the record as it stood after resolving, with the timestamp and the version and
  nothing else: the reverse lookup is not made (the outcome is the same for every reverse
  lookup the provider could have), and \<open>timezone\<close>, \<open>administrative_levels\<close>,
  \<open>geographic_info\<close> and \<open>quality_info\<close> are as they were in the input.
\<close>

theorem enrich_location_data_zero_coordinate:
  assumes res: "resolve_coordinates G address_data coordinates (address_data, w) = (Inr (lat, lng), d1, w1)"
    and zero: "lat = PFloat (Finite 0) \<or> lng = PFloat (Finite 0)"
  shows "enrich_location_data I G address_data coordinates c a w =
           (stamped d1 (fst (now G w1)), snd (now G w1)) \<and>
         (\<forall>r. enrich_location_data I (G\<lparr>reverse_geocode := r\<rparr>) address_data coordinates c a w =
              enrich_location_data I G address_data coordinates c a w) \<and>
         (\<forall>key \<in> {lit ''timezone'', lit ''administrative_levels'', lit ''geographic_info'',
                    lit ''quality_info''}.
            dict_get (fst (enrich_location_data I G address_data coordinates c a w)) key =
            dict_get address_data key)"
proof -
  have e: "enrich_location_data I G address_data coordinates c a w =
           (stamped d1 (fst (now G w1)), snd (now G w1))"
    using res zero by (rule enrich_without_lookup) simp_all
  have "enrich_location_data I (G\<lparr>reverse_geocode := r\<rparr>) address_data coordinates c a w =
           (stamped d1 (fst (now G w1)), snd (now G w1))" for r
    using res zero by (rule enrich_without_lookup) (simp_all add: resolve_coordinates_reverse)
  with e have i: "\<forall>r. enrich_location_data I (G\<lparr>reverse_geocode := r\<rparr>) address_data coordinates c a w =
              enrich_location_data I G address_data coordinates c a w" by simp
  from resolve_coordinates_state[OF res]
  have "\<forall>key \<in> {lit ''timezone'', lit ''administrative_levels'', lit ''geographic_info'',
                    lit ''quality_info''}.
            dict_get (stamped d1 (fst (now G w1))) key = dict_get address_data key"
    by (auto simp: stamped_fields coordinates_fields)
  with e i show ?thesis by simp
qed

theorem enrich_location_data_zero_coordinate_witness:
  "enrich_location_data ascii_interp failing_geocoder greenwich
     (Some (PFloat (Finite (5148 / 100)), PFloat (Finite 0))) False False 0 =
   (stamped greenwich (lit ''2024-01-01T00:00:00''), 0)"
proof -
  have res: "resolve_coordinates failing_geocoder greenwich
      (Some (PFloat (Finite (5148 / 100)), PFloat (Finite 0))) (greenwich, 0) =
      (Inr (PFloat (Finite (5148 / 100)), PFloat (Finite 0)), greenwich, 0)"
    by (simp add: resolve_coordinates_def ret_def)
  have zero: "PFloat (Finite (5148 / 100)) = PFloat (Finite 0) \<or> PFloat (Finite 0) = PFloat (Finite 0)"
    by simp
  from enrich_location_data_zero_coordinate[OF res zero, of ascii_interp False False]
  show ?thesis by (simp add: failing_geocoder_def)
qed

section \<open>Dictionaries\<close>

lemma dict_set_keys: "fst ` set (dict_set d k v) = insert k (fst ` set d)"
proof (induction d)
  case Nil then show ?case by simp
next
  case (Cons a d)
  obtain k' v' where a: "a = (k', v')" by (cases a)
  show ?case
  proof (cases "k' = k")
    case True then show ?thesis by (simp add: a)
  next
    case False
    then have "dict_set (a # d) k v = a # dict_set d k v" by (simp add: a)
    then show ?thesis using Cons.IH by auto
  qed
qed

lemma dict_get_Cons: "dict_get ((k', v') # r) k = (if k = k' then Some v' else dict_get r k)"
  by (simp add: dict_get_def)

lemma dict_set_distinct: "distinct (map fst d) \<Longrightarrow> distinct (map fst (dict_set d k v))"
proof (induction d)
  case Nil then show ?case by simp
next
  case (Cons a d)
  obtain k' v' where a: "a = (k', v')" by (cases a)
  show ?case
  proof (cases "k' = k")
    case True
    with Cons.prems a show ?thesis by simp
  next
    case False
    from Cons.prems a have "k' \<notin> fst ` set d" by auto
    with False have "k' \<notin> fst ` set (dict_set d k v)" by (simp add: dict_set_keys)
    with Cons a False show ?thesis by auto
  qed
qed

lemma dict_get_None_iff: "dict_get d k = None \<longleftrightarrow> k \<notin> fst ` set d"
  by (simp add: dict_get_def map_of_eq_None_iff)

lemma dict_update_Nil: "dict_update d [] = d"
  by (simp add: dict_update_def)

lemma dict_update_Cons: "dict_update d ((k, v) # r) = dict_update (dict_set d k v) r"
  by (simp add: dict_update_def)

lemma dict_update_keys: "fst ` set (dict_update d r) = fst ` set d \<union> fst ` set r"
proof (induction r arbitrary: d)
  case Nil then show ?case by (simp add: dict_update_Nil)
next
  case (Cons a r)
  obtain k v where a: "a = (k, v)" by (cases a)
  show ?case unfolding a dict_update_Cons Cons.IH by (auto simp: dict_set_keys)
qed

lemma dict_update_distinct: "distinct (map fst d) \<Longrightarrow> distinct (map fst (dict_update d r))"
proof (induction r arbitrary: d)
  case Nil then show ?case by (simp add: dict_update_Nil)
next
  case (Cons a r)
  obtain k v where a: "a = (k, v)" by (cases a)
  from Cons.prems show ?case unfolding a dict_update_Cons by (intro Cons.IH dict_set_distinct)
qed

lemma dict_get_dict_update:
  "distinct (map fst r) \<Longrightarrow>
   dict_get (dict_update d r) k = (case dict_get r k of None \<Rightarrow> dict_get d k | Some v \<Rightarrow> Some v)"
proof (induction r arbitrary: d)
  case Nil then show ?case by (simp add: dict_update_Nil dict_get_def)
next
  case (Cons a r)
  obtain k' v' where a: "a = (k', v')" by (cases a)
  from Cons.prems a have d: "distinct (map fst r)" and n: "k' \<notin> fst ` set r" by auto
  have "dict_get (dict_update (dict_set d k' v') r) k =
        (case dict_get r k of None \<Rightarrow> dict_get (dict_set d k' v') k | Some v \<Rightarrow> Some v)"
    using d by (rule Cons.IH)
  moreover have "k = k' \<Longrightarrow> dict_get r k = None" using n by (simp add: dict_get_None_iff)
  ultimately show ?case unfolding a dict_update_Cons
    by (auto simp: dict_get_dict_set dict_get_Cons split: option.splits)
qed

section \<open>Properties that a computation keeps\<close>

lemma preserves_ret: "preserves P (ret v)"
  by (simp add: preserves_def ret_def)

lemma preserves_lift: "preserves P (lift m)"
  by (simp add: preserves_def lift_def)

lemma preserves_current: "preserves P current"
  by (simp add: preserves_def current_def)

lemma preserves_world: "preserves P (world m)"
  by (auto simp: preserves_def world_def split: prod.splits)

lemma preserves_assign: "(\<And>d. P d \<Longrightarrow> P (dict_set d key v)) \<Longrightarrow> preserves P (assign key v)"
  by (auto simp: preserves_def assign_def)

lemma preserves_seq:
  assumes m: "preserves P m" and f: "\<And>v. preserves P (f v)"
  shows "preserves P (seq m f)"
  unfolding preserves_def
proof (intro allI impI)
  fix d w r d' w'
  assume P: "P d" and s: "seq m f (d, w) = (r, d', w')"
  obtain r1 d1 w1 where m1: "m (d, w) = (r1, d1, w1)" by (cases "m (d, w)")
  with m P have P1: "P d1" unfolding preserves_def by blast
  show "P d'"
  proof (cases r1)
    case (Inl e)
    with s m1 have "d' = d1" by (simp add: seq_def)
    with P1 show ?thesis by simp
  next
    case (Inr v)
    with s m1 have "f v (d1, w1) = (r, d', w')" by (simp add: seq_def)
    with f[of v] P1 show ?thesis unfolding preserves_def by blast
  qed
qed

lemma preserves_if: "preserves P m \<Longrightarrow> preserves P n \<Longrightarrow> preserves P (if b then m else n)"
  by simp

lemma preserves_list: "preserves P m \<Longrightarrow> (\<And>x xs. preserves P (f x xs)) \<Longrightarrow>
    preserves P (case l of [] \<Rightarrow> m | x # xs \<Rightarrow> f x xs)"
  by (cases l) auto

lemma preserves_option: "preserves P m \<Longrightarrow> (\<And>x. preserves P (f x)) \<Longrightarrow>
    preserves P (case l of None \<Rightarrow> m | Some x \<Rightarrow> f x)"
  by (cases l) auto

lemma preserves_prod: "(\<And>x y. preserves P (f x y)) \<Longrightarrow> preserves P (case p of (x, y) \<Rightarrow> f x y)"
  by (cases p) auto

lemmas preserves_intros = preserves_ret preserves_lift preserves_current preserves_world
  preserves_seq preserves_if preserves_list preserves_option preserves_prod

lemma enrich_try_preserves:
  assumes "\<And>d key v. key \<in> set enrich_keys \<Longrightarrow> P d \<Longrightarrow> P (dict_set d key v)"
  shows "preserves P (enrich_try G address_data coordinates c a)"
  unfolding enrich_try_def resolve_coordinates_def attach_place_def
  by (intro preserves_intros preserves_assign assms) (simp_all add: enrich_keys_def)

lemma enrich_location_data_preserves:
  assumes closed: "\<And>d key v. key \<in> set enrich_keys \<Longrightarrow> P d \<Longrightarrow> P (dict_set d key v)"
    and P: "P d"
  shows "P (fst (enrich_location_data I G d final_coords c a w))"
proof -
  obtain r d' w' where t: "enrich_try G d final_coords c a (d, w) = (r, d', w')"
    by (cases "enrich_try G d final_coords c a (d, w)")
  with enrich_try_preserves[of P G d final_coords c a, OF closed] P have P': "P d'"
    unfolding preserves_def by blast
  have "P (dict_set d' (lit ''enrichment_error'') v)" for v
    using P' by (intro closed) (simp add: enrich_keys_def)
  with P' t show ?thesis by (cases r) (simp_all add: enrich_location_data_def)
qed

lemma holds_dict_set: "key \<noteq> k \<Longrightarrow> holds k x d \<Longrightarrow> holds k x (dict_set d key v)"
  by (simp add: holds_def dict_set_distinct dict_get_dict_set)

lemma enrich_record_holds:
  assumes k: "k \<notin> set enrich_keys"
  shows "preserves (holds k x) (enrich_record I G final_coords c a)"
  unfolding preserves_def
proof (intro allI impI)
  fix d w r d' w'
  assume h: "holds k x d" and e: "enrich_record I G final_coords c a (d, w) = (r, d', w')"
  let ?en = "fst (enrich_location_data I G d final_coords c a w)"
  from e have d': "d' = dict_update d ?en"
    by (auto simp: enrich_record_def split: prod.splits)
  have "holds k x ?en"
  proof (rule enrich_location_data_preserves[of "holds k x"])
    fix d key v assume "key \<in> set enrich_keys" "holds k x d"
    with k show "holds k x (dict_set d key v)" by (intro holds_dict_set) auto
  qed (rule h)
  then have "distinct (map fst ?en)" "dict_get ?en k = x" by (simp_all add: holds_def)
  with h show "holds k x d'" unfolding d'
    by (auto simp: holds_def dict_update_distinct dict_get_dict_update split: option.splits)
qed

section \<open>The completion with a provider of the documented shape\<close>

lemma text_or_absent_Some: "text_or_absent (Some v) \<Longrightarrow> \<exists>s. v = PStr s"
  by (cases v) (auto simp: text_or_absent_def)

lemma good_formatted:
  assumes "good_candidate cand" "getitem cand (lit ''formatted'') = Inr v"
  shows "\<exists>f. v = PStr f"
proof -
  from assms(2) obtain d where d: "cand = PDict d" "dict_get d (lit ''formatted'') = Some v"
    by (cases cand) (auto simp: getitem_def split: option.splits)
  with assms(1) have "text_or_absent (Some v)" by (auto simp: good_candidate_def)
  then show ?thesis by (rule text_or_absent_Some)
qed

lemma good_components_Nil: "good_components (PDict [])"
  by (simp add: good_components_def text_or_absent_def dict_get_def)

lemma good_candidate_components:
  "good_candidate cand \<Longrightarrow> get_method cand (lit ''components'') (PDict []) = Inr cs \<Longrightarrow>
   good_components cs"
  by (auto simp: good_candidate_def get_method_def get_or_def good_components_Nil
      split: pyval.splits option.splits)

lemma dict_get_map_values:
  "dict_get (map (\<lambda>(key, v). (key, g v)) d) k = map_option g (dict_get d k)"
  by (induction d) (auto simp: dict_get_def)

lemma clean_components_good:
  assumes "good_components cs" "clean_components cs a = Inr cs'"
  shows "good_components cs'"
proof -
  from assms(1) obtain d where d: "cs = PDict d" by (cases cs) (auto simp: good_components_def)
  let ?g = "\<lambda>v. case v of PStr s \<Rightarrow> PStr (clean_address_text s a) | _ \<Rightarrow> v"
  have e: "(\<lambda>(key, v). case v of PStr s \<Rightarrow> (key, PStr (clean_address_text s a)) | _ \<Rightarrow> (key, v)) =
        (\<lambda>(key, v). (key, ?g v))"
    by (auto simp: fun_eq_iff split: pyval.splits)
  from assms(2) d have "cs' = PDict (map (\<lambda>(key, v). case v of
       PStr s \<Rightarrow> (key, PStr (clean_address_text s a)) | _ \<Rightarrow> (key, v)) d)"
    by (simp add: clean_components_def)
  then have cs': "cs' = PDict (map (\<lambda>(key, v). (key, ?g v)) d)"
    unfolding e .
  have "text_or_absent (map_option ?g x)" if "text_or_absent x" for x
    using that by (auto simp: text_or_absent_def split: option.splits pyval.splits)
  with assms(1) d show ?thesis unfolding cs'
    by (simp add: good_components_def dict_get_map_values)
qed

lemma clean_candidate_good:
  assumes "good_components cs" "clean_candidate c a (PStr f) cs = Inr (full, cs')"
  shows "(\<exists>f'. full = PStr f') \<and> good_components cs'"
proof (cases c)
  case False
  with assms show ?thesis by (auto simp: clean_candidate_def)
next
  case True
  with assms(2) obtain v where v: "clean_value (PStr f) a = Inr v"
    and cs': "clean_components cs a = Inr cs'" and full: "full = v"
    by (auto simp: clean_candidate_def and_then_Inr_iff)
  from v have "\<exists>f'. v = PStr f'" by (auto simp: clean_value_def split: if_splits)
  with full clean_components_good[OF assms(1) cs'] show ?thesis by simp
qed

lemma merge_values_text:
  "merge_values I (PStr p) (PStr f) = Inr m \<Longrightarrow> \<exists>t. m = PStr t"
  by (auto simp: merge_values_def split: if_splits)

lemma shaped_reverse:
  assumes "shaped G" "reverse_geocode G lat lng l n w = (Inr (cand # rest), w')"
  shows "good_candidate cand"
proof -
  from assms have "list_all good_candidate (cand # rest)" unfolding shaped_def by blast
  then show ?thesis by simp
qed

lemma shaped_forward:
  assumes "shaped G" "geocode G q l w = (Inr (cand # rest), w')"
  shows "good_candidate cand"
proof -
  from assms have "list_all good_candidate (cand # rest)" unfolding shaped_def by blast
  then show ?thesis by simp
qed

lemma reverse_strategy_shaped:
  assumes G: "shaped G"
    and r: "reverse_strategy I G (PStr p) coordinates language c a (initial_result (PStr p)) w =
              (Inr (Some result), w')"
  shows "\<exists>m cs. result = reverse_result (PStr p) (PStr m) cs \<and> good_components cs"
proof -
  from r obtain lat lng where co: "coordinates = Some (lat, lng)"
    by (cases coordinates) (auto simp: reverse_strategy_def ret_def)
  from r co obtain cand rest where
    rev: "reverse_geocode G lat lng (Some language) c w = (Inr (cand # rest), w')"
    by (auto simp: reverse_strategy_def seq_def ret_def lift_def
        split: prod.splits sum.splits list.splits)
  from r co rev obtain full cs full' cs' m where
    f: "getitem cand (lit ''formatted'') = Inr full" and
    cs: "get_method cand (lit ''components'') (PDict []) = Inr cs" and
    cc: "clean_candidate c a full cs = Inr (full', cs')" and
    m: "merge_values I (PStr p) full' = Inr m" and
    res: "result = reverse_result (PStr p) m cs'"
    by (auto simp: reverse_strategy_def seq_def lift_def and_then_Inr_iff reverse_result_fold)
  from shaped_reverse[OF G rev] have g: "good_candidate cand" .
  from good_formatted[OF g f] obtain ft where ft: "full = PStr ft" by blast
  from clean_candidate_good[OF good_candidate_components[OF g cs] cc[unfolded ft]]
  obtain ft' where ft': "full' = PStr ft'" and gc: "good_components cs'" by blast
  from merge_values_text[OF m[unfolded ft']] obtain t where "m = PStr t" by blast
  with res gc show ?thesis by blast
qed

lemma forward_strategy_shaped:
  assumes G: "shaped G"
    and r: "forward_strategy G p language c a (initial_result (PStr p)) w = (Inr result, w')"
  shows "result = initial_result (PStr p) \<or>
         (\<exists>full conf cs lat lng. result = forward_result (PStr p) (PStr full) conf cs lat lng \<and>
            good_components cs)"
proof (cases "result = initial_result (PStr p)")
  case True then show ?thesis by simp
next
  case False
  with r obtain cand rest where
    fw: "geocode G (PStr p) (Some language) w = (Inr (cand # rest), w')"
    by (auto simp: forward_strategy_def seq_def ret_def lift_def
        split: prod.splits sum.splits list.splits if_splits)
  from r fw False obtain full cs conf full' cs' lat lng where
    f: "getitem cand (lit ''formatted'') = Inr full" and
    cs: "get_method cand (lit ''components'') (PDict []) = Inr cs" and
    cc: "clean_candidate c a full cs = Inr (full', cs')" and
    res: "result = forward_result (PStr p) full' conf cs' lat lng"
    by (auto simp: forward_strategy_def seq_def ret_def lift_def and_then_Inr_iff forward_result_fold
        split: if_splits)
  from shaped_forward[OF G fw] have g: "good_candidate cand" .
  from good_formatted[OF g f] obtain ft where ft: "full = PStr ft" by blast
  from clean_candidate_good[OF good_candidate_components[OF g cs] cc[unfolded ft]]
  obtain ft' where ft': "full' = PStr ft'" and gc: "good_components cs'" by blast
  with res show ?thesis by blast
qed

lemma completion_fields_shapes:
  "completion_fields (error_result I (PStr p) e)"
  "good_components cs \<Longrightarrow> completion_fields (reverse_result (PStr p) (PStr m) cs)"
  "completion_fields (dict_set (initial_result (PStr p)) (lit ''suggestions'') S)"
  "good_components cs \<Longrightarrow>
   completion_fields (dict_set (forward_result (PStr p) (PStr f) conf cs lat lng) (lit ''suggestions'') S)"
  by (simp_all add: completion_fields_def result_defs text_or_absent_def good_components_Nil
      has_lat_lng_def)

lemma complete_address_fields:
  assumes G: "shaped G"
  shows "completion_fields (fst (complete_address I G (PStr p) coordinates language c a w))"
proof (cases "complete_try I G (PStr p) coordinates language c a w")
  case (Pair outcome w')
  show ?thesis
  proof (cases outcome)
    case (Inl e)
    with Pair have "fst (complete_address I G (PStr p) coordinates language c a w) =
        error_result I (PStr p) e"
      by (simp add: complete_address_def error_result_def)
    then show ?thesis by (simp add: completion_fields_shapes)
  next
    case (Inr result)
    with Pair have r: "fst (complete_address I G (PStr p) coordinates language c a w) = result"
      by (simp add: complete_address_def)
    obtain early w1 where rs:
      "reverse_strategy I G (PStr p) coordinates language c a (initial_result (PStr p)) w = (early, w1)"
      by (cases "reverse_strategy I G (PStr p) coordinates language c a (initial_result (PStr p)) w")
    show ?thesis
    proof (cases early)
      case (Inl e)
      with rs Pair Inr show ?thesis by (simp add: complete_try_def seq_def)
    next
      case (Inr returned)
      note early = this
      show ?thesis
      proof (cases returned)
        case (Some res)
        with rs early Pair \<open>outcome = Inr result\<close> have "res = result"
          by (simp add: complete_try_def seq_def ret_def)
        with rs early Some reverse_strategy_shaped[OF G, of I p coordinates language c a w result w1]
        show ?thesis unfolding r by (auto simp: completion_fields_shapes)
      next
        case None
        obtain fo w2 where fs:
          "forward_strategy G p language c a (initial_result (PStr p)) w1 = (fo, w2)"
          by (cases "forward_strategy G p language c a (initial_result (PStr p)) w1")
        show ?thesis
        proof (cases fo)
          case (Inl e)
          with rs early None fs Pair \<open>outcome = Inr result\<close> show ?thesis
            by (simp add: complete_try_def seq_def ret_def)
        next
          case (Inr res)
          with rs early None fs Pair \<open>outcome = Inr result\<close>
          have "result = dict_set res (lit ''suggestions'')
                  (PList (map PStr (suggest_address_corrections I p 3)))"
            by (simp add: complete_try_def seq_def ret_def)
          with forward_strategy_shaped[OF G, of p language c a w1 res w2] fs Inr
          show ?thesis unfolding r by (auto simp: completion_fields_shapes)
        qed
      qed
    qed
  qed
qed

section \<open>The steps for one record\<close>

lemma ready_update:
  assumes d: "distinct (map fst d)" "dict_get d (lit ''coordinates'') = None"
    "dict_get d (lit ''processing_error'') = None" "dict_get d (lit ''completed_address'') = None"
    and r: "completion_fields r"
  shows "ready (dict_update d r)"
  using assms
  by (auto simp: ready_def completion_fields_def dict_update_distinct dict_get_dict_update
      text_or_absent_def split: option.splits)

lemma ready_dict_set:
  assumes "ready d" "key \<notin> {lit ''completed_address'', lit ''components'', lit ''coordinates'',
                              lit ''processing_error''}"
  shows "ready (dict_set d key v)"
  using assms by (auto simp: ready_def dict_set_distinct dict_get_dict_set)

lemma validate_postal_code_returns:
  assumes "country_code = PNone \<or> (\<exists>c. country_code = PStr c)"
  shows "\<exists>r. validate_postal_code I (PStr pc) country_code = Inr r"
proof -
  from assms have "\<exists>k. known_country I country_code = Inr k"
    by (auto simp: known_country_def)
  then obtain k where k: "known_country I country_code = Inr k" by blast
  show ?thesis
    by (cases "pc = []")
       (auto simp: validate_postal_code_def k and_then_def Let_def split: option.splits prod.splits)
qed

lemma normalize_record_ready:
  assumes "ready d"
  shows "\<exists>d'. normalize_record I language (d, w) = (Inr (), d', w) \<and> ready d' \<and>
           (d' = d \<or> (\<exists>v. d' = dict_set d (lit ''normalized_address'') v))"
proof (cases "truthy (get_or d (lit ''completed_address'') PNone)")
  case False
  with assms show ?thesis by (simp add: normalize_record_def seq_def current_def ret_def)
next
  case True
  then obtain v where v: "dict_get d (lit ''completed_address'') = Some v"
    by (cases "dict_get d (lit ''completed_address'')") (auto simp: get_or_def)
  with assms have "text_or_absent (Some v)" by (simp add: ready_def)
  then obtain s where s: "v = PStr s" using text_or_absent_Some by blast
  have "ready (dict_set d (lit ''normalized_address'') x)" for x
    using assms by (rule ready_dict_set) (simp add: lit_def)
  with True v s show ?thesis
    by (auto simp: normalize_record_def seq_def current_def lift_def assign_def get_or_def
        normalize_value_def)
qed

lemma validate_record_ready:
  assumes "ready d"
  shows "\<exists>d'. validate_record I (d, w) = (Inr (), d', w) \<and> ready d' \<and>
           (d' = d \<or> (\<exists>v. d' = dict_set d (lit ''postal_validation'') v))"
proof -
  have "good_components (get_or d (lit ''components'') (PDict []))"
    using assms by (auto simp: ready_def get_or_def good_components_Nil split: option.splits)
  then obtain cs where cs: "get_or d (lit ''components'') (PDict []) = PDict cs"
    and pc: "text_or_absent (dict_get cs (lit ''postcode''))"
    and cc: "text_or_absent (dict_get cs (lit ''country_code''))"
    by (cases "get_or d (lit ''components'') (PDict [])") (auto simp: good_components_def)
  show ?thesis
  proof (cases "dict_get cs (lit ''postcode'')")
    case None
    with cs assms show ?thesis
      by (simp add: validate_record_def seq_def current_def lift_def ret_def contains_item_def)
  next
    case (Some v)
    with pc obtain p where p: "v = PStr p" using text_or_absent_Some by auto
    have "get_or cs (lit ''country_code'') PNone = PNone \<or>
          (\<exists>c. get_or cs (lit ''country_code'') PNone = PStr c)"
      using cc text_or_absent_Some by (auto simp: get_or_def split: option.splits)
    from validate_postal_code_returns[OF this]
    obtain r where r: "validate_postal_code I (PStr p) (get_or cs (lit ''country_code'') PNone) = Inr r"
      by blast
    have "ready (dict_set d (lit ''postal_validation'') x)" for x
      using assms by (rule ready_dict_set) (simp add: lit_def)
    with cs Some p r show ?thesis
      by (auto simp: validate_record_def seq_def current_def lift_def ret_def contains_item_def
          assign_def getitem_def get_method_def and_then_def)
  qed
qed

lemma final_coordinates_returns:
  assumes "ready d"
  shows "\<exists>fc. final_coordinates coordinates d = Inr fc"
proof (cases "coordinates = None \<and> truthy (get_or d (lit ''coordinates'') PNone)")
  case False
  then show ?thesis by (auto simp: final_coordinates_def)
next
  case True
  then obtain v where v: "dict_get d (lit ''coordinates'') = Some v"
    by (cases "dict_get d (lit ''coordinates'')") (auto simp: get_or_def)
  with assms have "has_lat_lng v" by (simp add: ready_def)
  then obtain g la lo where "v = PDict g" "dict_get g (lit ''lat'') = Some la"
    "dict_get g (lit ''lng'') = Some lo"
    by (cases v) (auto simp: has_lat_lng_def)
  with True v show ?thesis
    by (simp add: final_coordinates_def get_or_def getitem_def and_then_def)
qed

lemma completion_keys_mem:
  "lit ''completed_address'' \<in> set completion_keys" "lit ''method_used'' \<in> set completion_keys"
  "lit ''confidence'' \<in> set completion_keys" "lit ''components'' \<in> set completion_keys"
  "lit ''suggestions'' \<in> set completion_keys" "lit ''coordinates'' \<in> set completion_keys"
  "lit ''error'' \<in> set completion_keys"
  by (simp_all add: completion_keys_def)

lemma initial_result_keys: "fst ` set (initial_result x) \<subseteq> set completion_keys"
  by (simp add: initial_result_def completion_keys_def)

lemma completion_keys_shapes:
  "fst ` set (error_result I x e) \<subseteq> set completion_keys"
  "fst ` set (reverse_result x m cs) \<subseteq> set completion_keys"
  "fst ` set (dict_set (initial_result x) (lit ''suggestions'') S) \<subseteq> set completion_keys"
  "fst ` set (dict_set (forward_result x f conf cs lat lng) (lit ''suggestions'') S) \<subseteq> set completion_keys"
  using initial_result_keys[of x]
  by (simp_all only: error_result_def reverse_result_def forward_result_def dict_set_keys
      dict_update_keys list.set image_insert fst_conv image_empty insert_subset Un_subset_iff
      completion_keys_mem empty_subsetI simp_thms)

lemma complete_address_keys:
  "fst ` set (fst (complete_address I G (PStr p) coordinates language c a w)) \<subseteq> set completion_keys"
proof -
  from complete_address_cases[of I G p coordinates language c a w]
  consider e where "fst (complete_address I G (PStr p) coordinates language c a w) = error_result I (PStr p) e"
    | m cs where "fst (complete_address I G (PStr p) coordinates language c a w) = reverse_result (PStr p) m cs"
    | "fst (complete_address I G (PStr p) coordinates language c a w) =
        dict_set (initial_result (PStr p)) (lit ''suggestions'')
          (PList (map PStr (suggest_address_corrections I p 3)))"
    | f conf cs lat lng where "fst (complete_address I G (PStr p) coordinates language c a w) =
        dict_set (forward_result (PStr p) f conf cs lat lng) (lit ''suggestions'')
          (PList (map PStr (suggest_address_corrections I p 3)))"
    by blast
  then show ?thesis
    by cases (simp_all only: completion_keys_shapes)
qed

lemma process_try_unfold:
  assumes "record_coordinates I d = Inr coordinates"
    and "detect_value I (get_or d (lit ''address'') (PStr [])) = Inr completeness"
    and "complete_record I G language c a (get_or d (lit ''address'') (PStr [])) coordinates
           completeness (d, w) = (Inr (), d2, w2)"
  shows "process_try I G language c a (d, w) =
         after_completion I G language c a coordinates completeness (d2, w2)"
  using assms by (simp add: process_try_def after_completion_def seq_def current_def lift_def)

lemma after_completion_holds:
  assumes "k \<notin> set enrich_keys" "k \<noteq> lit ''normalized_address''" "k \<noteq> lit ''postal_validation''"
    "k \<noteq> lit ''quality_metrics''"
  shows "preserves (holds k x) (after_completion I G language c a coordinates completeness)"
  unfolding after_completion_def normalize_record_def validate_record_def metrics_record_def
  using assms
  by (intro preserves_intros preserves_assign holds_dict_set enrich_record_holds) simp_all

lemma after_completion_returns:
  assumes "ready d2"
  shows "\<exists>d' w'. after_completion I G language c a coordinates completeness (d2, w2) = (Inr (), d', w') \<and>
           dict_get d' (lit ''quality_metrics'') \<noteq> None"
proof -
  from normalize_record_ready[OF assms, of I language w2] obtain d3 where
    n: "normalize_record I language (d2, w2) = (Inr (), d3, w2)" and r3: "ready d3" by blast
  from validate_record_ready[OF r3, of I w2] obtain d4 where
    v: "validate_record I (d3, w2) = (Inr (), d4, w2)" and r4: "ready d4" by blast
  from final_coordinates_returns[OF r4, of coordinates] obtain fc where
    fc: "final_coordinates coordinates d4 = Inr fc" by blast
  obtain d5 w5 where e: "enrich_record I G fc c a (d4, w2) = (Inr (), d5, w5)"
    by (cases "enrich_location_data I G d4 fc c a w2") (simp add: enrich_record_def)
  obtain t w6 where t: "now G w5 = (t, w6)" by (cases "now G w5")
  have "metrics_record G completeness fc (d5, w5) =
        (Inr (), dict_set d5 (lit ''quality_metrics'')
           (PDict [(lit ''completeness_score'', PFloat (Finite (confidence completeness))),
               (lit ''has_coordinates'', PBool (fc \<noteq> None)),
               (lit ''method_used'', get_or d5 (lit ''method_used'') (PStr (lit ''none''))),
               (lit ''processing_timestamp'', PStr t)]), w6)"
    using t by (simp add: metrics_record_def seq_def current_def world_def assign_def)
  with n v fc e show ?thesis
    by (simp add: after_completion_def seq_def current_def lift_def dict_get_dict_set)
qed

lemma complete_record_run:
  assumes "\<not> is_complete completeness"
  shows "complete_record I G language c a address coordinates completeness (d, w) =
         (Inr (), dict_update d (fst (complete_address I G address coordinates language c a w)),
          snd (complete_address I G address coordinates language c a w))"
  using assms by (simp add: complete_record_def split: prod.splits)

lemma complete_record_cases:
  "complete_record I G language c a address coordinates completeness (d, w) = (Inr (), d, w) \<or>
   complete_record I G language c a address coordinates completeness (d, w) =
         (Inr (), dict_update d (fst (complete_address I G address coordinates language c a w)),
          snd (complete_address I G address coordinates language c a w))"
  by (simp add: complete_record_def ret_def split: prod.splits)

lemma holds_update:
  assumes "holds k x d" "distinct (map fst r)" "k \<notin> fst ` set r"
  shows "holds k x (dict_update d r)"
  using assms
  by (simp add: holds_def dict_update_distinct dict_get_dict_update dict_get_None_iff[symmetric])

lemma wellformed_ready: "wellformed I d \<Longrightarrow> ready d"
  by (simp add: wellformed_def ready_def text_or_absent_def)

lemma pipeline_keys_not:
  assumes "k \<notin> set pipeline_keys"
  shows "k \<notin> set completion_keys" "k \<notin> set enrich_keys" "k \<noteq> lit ''normalized_address''"
    "k \<noteq> lit ''postal_validation''" "k \<noteq> lit ''quality_metrics''"
  using assms by (auto simp: pipeline_keys_def)

lemma not_written:
  "lit ''processing_error'' \<notin> set enrich_keys" "lit ''processing_error'' \<notin> set completion_keys"
  "lit ''error'' \<notin> set enrich_keys" "lit ''method_used'' \<notin> set enrich_keys"
  by (simp_all add: enrich_keys_def completion_keys_def lit_def)

lemma not_written':
  "lit ''processing_error'' \<noteq> lit ''normalized_address''"
  "lit ''processing_error'' \<noteq> lit ''postal_validation''"
  "lit ''processing_error'' \<noteq> lit ''quality_metrics''"
  "lit ''error'' \<noteq> lit ''normalized_address''"
  "lit ''error'' \<noteq> lit ''postal_validation''"
  "lit ''error'' \<noteq> lit ''quality_metrics''"
  "lit ''method_used'' \<noteq> lit ''normalized_address''"
  "lit ''method_used'' \<noteq> lit ''postal_validation''"
  "lit ''method_used'' \<noteq> lit ''quality_metrics''"
  by (simp_all add: lit_def)

lemma process_try_wellformed:
  assumes G: "shaped G" and wf: "wellformed I d"
  shows "\<exists>d' w'. process_try I G language c a (d, w) = (Inr (), d', w') \<and>
           dict_get d' (lit ''processing_error'') = None \<and>
           dict_get d' (lit ''quality_metrics'') \<noteq> None \<and>
           (\<forall>k. k \<notin> set pipeline_keys \<longrightarrow> dict_get d' k = dict_get d k) \<and>
           (\<forall>e. completion_raises I G d language c w e \<longrightarrow>
              dict_get d' (lit ''error'') = Some (PStr (exn_str I e)) \<and>
              dict_get d' (lit ''method_used'') = Some (PStr (lit ''error'')))"
proof -
  from wf obtain coordinates where co: "record_coordinates I d = Inr coordinates"
    by (auto simp: wellformed_def)
  from wf have dist: "distinct (map fst d)" by (simp add: wellformed_def)
  from wf obtain p where p: "get_or d (lit ''address'') (PStr []) = PStr p"
    using text_or_absent_Some
    by (cases "dict_get d (lit ''address'')") (auto simp: wellformed_def get_or_def)
  let ?comp = "detect_incomplete_address I p"
  have dv: "detect_value I (PStr p) = Inr ?comp"
    by (simp add: detect_value_def)
  let ?r = "fst (complete_address I G (PStr p) coordinates language c a w)"
  have rf: "completion_fields ?r" using G by (rule complete_address_fields)
  then have rd: "distinct (map fst ?r)" by (simp add: completion_fields_def)
  have rk: "fst ` set ?r \<subseteq> set completion_keys" by (rule complete_address_keys)
  obtain d2 w2 where
    c2: "complete_record I G language c a (PStr p) coordinates ?comp (d, w) = (Inr (), d2, w2)"
    and d2: "d2 = d \<or> d2 = dict_update d ?r"
    using complete_record_cases[of I G language c a "PStr p" coordinates ?comp d w] by blast
  have ready2: "ready d2"
    using d2 wellformed_ready[OF wf] ready_update[OF _ _ _ _ rf, of d] wf
    by (auto simp: wellformed_def)
  have frame2: "holds k (dict_get d k) d2" if "k \<notin> set completion_keys" for k
  proof -
    have h: "holds k (dict_get d k) d" using dist by (simp add: holds_def)
    from that rk have "k \<notin> fst ` set ?r" by blast
    from holds_update[OF h rd this] h d2 show ?thesis by auto
  qed
  from after_completion_returns[OF ready2, of I G language c a coordinates ?comp w2]
  obtain d' w' where
    ac: "after_completion I G language c a coordinates ?comp (d2, w2) = (Inr (), d', w')"
    and qm: "dict_get d' (lit ''quality_metrics'') \<noteq> None" by blast
  have pt: "process_try I G language c a (d, w) = (Inr (), d', w')"
    using process_try_unfold[of I d coordinates ?comp G language c a w d2 w2] co dv c2 ac
    by (simp add: p)
  have keep: "holds k x d'" if "holds k x d2" "k \<notin> set enrich_keys" "k \<noteq> lit ''normalized_address''"
      "k \<noteq> lit ''postal_validation''" "k \<noteq> lit ''quality_metrics''" for k x
    using after_completion_holds[OF that(2-5), of x I G language c a coordinates ?comp] that(1) ac
    unfolding preserves_def by blast
  have pe: "dict_get d' (lit ''processing_error'') = None"
  proof -
    have "holds (lit ''processing_error'') None d2"
      using ready2 by (simp add: ready_def holds_def)
    from keep[OF this] show ?thesis by (simp add: holds_def not_written not_written')
  qed
  have fr: "dict_get d' k = dict_get d k" if "k \<notin> set pipeline_keys" for k
    using keep[OF frame2, of k] pipeline_keys_not[OF that] by (simp add: holds_def)
  have er: "dict_get d' (lit ''error'') = Some (PStr (exn_str I e)) \<and>
            dict_get d' (lit ''method_used'') = Some (PStr (lit ''error''))"
    if "completion_raises I G d language c w e" for e
  proof -
    from that p co have inc: "\<not> is_complete ?comp"
      and pr: "provider_raises G p coordinates language c w e"
      by (simp_all add: completion_raises_def)
    from complete_record_run[OF inc, of I G language c a "PStr p" coordinates d w] c2
    have d2': "d2 = dict_update d ?r" by simp
    from provider_raises_complete_try[OF pr, of I a]
    have "?r = error_result I (PStr p) e"
      by (cases "complete_try I G (PStr p) coordinates language c a w")
         (simp add: complete_address_def error_result_def)
    then have "dict_get ?r (lit ''error'') = Some (PStr (exn_str I e))"
      "dict_get ?r (lit ''method_used'') = Some (PStr (lit ''error''))"
      by (simp_all add: error_result_fields)
    with rd dist have "holds (lit ''error'') (Some (PStr (exn_str I e))) d2"
      "holds (lit ''method_used'') (Some (PStr (lit ''error''))) d2"
      unfolding d2' by (simp_all add: holds_def dict_update_distinct dict_get_dict_update)
    from keep[OF this(1)] keep[OF this(2)] show ?thesis
      by (simp add: holds_def not_written not_written')
  qed
  from pt pe qm fr er show ?thesis by blast
qed

section \<open>The loop over the batch\<close>

text \<open>
  The lengths for which \<open>time.sleep\<close> returns: a \<open>float\<close> from 0 up to, and not
  including, \<open>(2^63 - 512) / 1e9\<close>, an integer from 0 to 9223372036, and in both cases a
  wait that the operating system does not refuse.
\<close>

lemma sleeps_float:
  "sleeps G (PFloat (Finite r)) \<longleftrightarrow>
     0 \<le> r \<and> r * 10 ^ 9 < 2 ^ 63 - 512 \<and> (\<forall>w. fst (pause G r w) = Inr ())"
proof (cases "0 \<le> r \<and> r * 10 ^ 9 < 2 ^ 63 - 512")
  case True
  then show ?thesis by (simp add: sleeps_def sleep_def lift_def)
next
  case False
  then have "\<exists>e. sleep G (PFloat (Finite r)) = lift (Inl e)"
    by (auto simp: sleep_def)
  then obtain e where "sleep G (PFloat (Finite r)) = lift (Inl e)" by blast
  then have "\<not> sleeps G (PFloat (Finite r))" by (simp add: sleeps_def lift_def)
  with False show ?thesis by blast
qed

lemma sleeps_int:
  "sleeps G (PInt i) \<longleftrightarrow>
     0 \<le> i \<and> i \<le> 9223372036 \<and> (\<forall>w. fst (pause G (real_of_int i) w) = Inr ())"
proof (cases "0 \<le> i \<and> i \<le> 9223372036")
  case True
  then have "\<not> (i * 10 ^ 9 < - (2 ^ 63) \<or> 2 ^ 63 \<le> i * 10 ^ 9)" by simp
  with True show ?thesis by (simp add: sleeps_def sleep_def)
next
  case False
  then have "i * 10 ^ 9 < - (2 ^ 63) \<or> 2 ^ 63 \<le> i * 10 ^ 9 \<or> i < 0" by (simp, arith)
  then have "\<exists>e. sleep G (PInt i) = lift (Inl e)"
    by (auto simp: sleep_def)
  then obtain e where "sleep G (PInt i) = lift (Inl e)" by blast
  then have "\<not> sleeps G (PInt i)" by (simp add: sleeps_def lift_def)
  with False show ?thesis by blast
qed

lemma process_record_wellformed:
  assumes delay: "sleeps G delay" and G: "shaped G" and wf: "wellformed I d"
  shows "\<exists>d'. fst (process_record I G delay language c a d is_last w) = [d'] \<and>
              processed I G language c d w d'"
proof -
  from process_try_wellformed[OF G wf, of language c a w] obtain d' w' where
    pt: "process_try I G language c a (d, w) = (Inr (), d', w')"
    and p: "processed I G language c d w d'"
    unfolding processed_def by blast
  obtain r w'' where s: "sleep G delay w' = (r, w'')" by (cases "sleep G delay w'")
  with delay have "r = Inr ()" unfolding sleeps_def by (metis fst_conv)
  with pt p s show ?thesis by (auto simp: process_record_def)
qed

lemma process_from_Cons:
  "process_from I G delay language c a (d # rest) w =
     (fst (process_record I G delay language c a d (rest = []) w) @
      fst (process_from I G delay language c a rest
             (snd (process_record I G delay language c a d (rest = []) w))),
      snd (process_from I G delay language c a rest
             (snd (process_record I G delay language c a d (rest = []) w))))"
  by (simp split: prod.splits)

lemma process_from_wellformed:
  assumes delay: "sleeps G delay" and G: "shaped G"
  shows "\<forall>d \<in> set addresses. wellformed I d \<Longrightarrow>
         length (fst (process_from I G delay language c a addresses w)) = length addresses \<and>
         (\<forall>i < length addresses.
            processed I G language c (addresses ! i)
              (process_worlds I G delay language c a addresses w ! i)
              (fst (process_from I G delay language c a addresses w) ! i))"
proof (induction addresses arbitrary: w)
  case Nil
  then show ?case by simp
next
  case (Cons d rest)
  let ?w1 = "snd (process_record I G delay language c a d (rest = []) w)"
  from Cons.prems have wf: "wellformed I d" and wfr: "\<forall>d \<in> set rest. wellformed I d" by simp_all
  from process_record_wellformed[OF delay G wf, of language c a "rest = []" w]
  obtain d' where r: "fst (process_record I G delay language c a d (rest = []) w) = [d']"
    and p: "processed I G language c d w d'" by blast
  have out: "fst (process_from I G delay language c a (d # rest) w) =
             d' # fst (process_from I G delay language c a rest ?w1)"
    unfolding process_from_Cons using r by simp
  have worlds: "process_worlds I G delay language c a (d # rest) w =
                w # process_worlds I G delay language c a rest ?w1"
    by simp
  from Cons.IH[OF wfr, of ?w1] have
    len: "length (fst (process_from I G delay language c a rest ?w1)) = length rest" and
    ih: "\<And>j. j < length rest \<Longrightarrow> processed I G language c (rest ! j)
              (process_worlds I G delay language c a rest ?w1 ! j)
              (fst (process_from I G delay language c a rest ?w1) ! j)"
    by blast+
  have "processed I G language c ((d # rest) ! i)
          (process_worlds I G delay language c a (d # rest) w ! i)
          (fst (process_from I G delay language c a (d # rest) w) ! i)"
    if "i < length (d # rest)" for i
  proof (cases i)
    case 0
    with p show ?thesis unfolding out worlds by simp
  next
    case (Suc j)
    with that have j: "j < length rest" by simp
    from ih[OF j] show ?thesis unfolding out worlds Suc by simp
  qed
  with len show ?case unfolding out by simp
qed

text \<open>
  Claim C3, amended. Let \<open>time.sleep(delay)\<close> return without an exception (the delay is a
  number that is not negative and not too large, and the operating system does not refuse
  the wait), let the provider answer with candidates of its documented shape whenever it
  answers, and let every record of the batch be well formed. Then, whichever calls of the
  provider raise, the batch returns as many records as it was given, and the record at each
  position is the input record at that position fully processed, in the world in which the
  loop reached it: it bears no \<open>processing_error\<close>, it has its \<open>quality_metrics\<close>, its
  keys that the loop does not write are unchanged, and when the provider call of its
  completion raised it bears the message under \<open>error\<close>, with \<open>method_used = error\<close>.
\<close>

theorem process_address_batch_provider_failures:
  assumes "sleeps G delay" and "shaped G" and "\<forall>d \<in> set addresses. wellformed I d"
  shows "length (fst (process_address_batch I G addresses delay language c a w)) = length addresses \<and>
         (\<forall>i < length addresses.
            processed I G language c (addresses ! i)
              (process_worlds I G delay language c a addresses w ! i)
              (fst (process_address_batch I G addresses delay language c a w) ! i))"
  using process_from_wellformed[OF assms(1,2), of addresses I language c a w] assms(3)
  unfolding process_address_batch_def by blast

lemma failing_shaped: "shaped failing_geocoder"
  by (simp add: shaped_def failing_geocoder_def)

lemma failing_sleeps: "sleeps failing_geocoder (PFloat (Finite 1))"
  by (simp add: sleeps_float failing_geocoder_def)

lemma barcelona_wellformed: "wellformed ascii_interp barcelona"
  by (simp add: wellformed_def barcelona_def record_coordinates_def dict_get_def text_or_absent_def
      lit_def)

lemma greenwich_wellformed: "wellformed ascii_interp greenwich"
  by (simp add: wellformed_def greenwich_def record_coordinates_def dict_get_def text_or_absent_def
      lit_def)

lemma barcelona_incomplete: "\<not> is_complete (detect_incomplete_address I (lit ''Barcelona''))"
proof -
  have "split_on 44 (lit ''Barcelona'') = [lit ''Barcelona'']"
    by (simp add: split_on_def lit_def)
  moreover have "lit ''Barcelona'' \<noteq> []" by (simp add: lit_def)
  ultimately show ?thesis by (simp add: detect_incomplete_address_def Let_def)
qed

lemma barcelona_raises:
  "completion_raises ascii_interp failing_geocoder barcelona (lit ''es'') False 0
     (Raised (lit ''quota exceeded''))"
proof -
  have a: "get_or barcelona (lit ''address'') (PStr []) = PStr (lit ''Barcelona'')"
    by (simp add: barcelona_def get_or_def dict_get_def lit_def)
  have c: "record_coordinates ascii_interp barcelona = Inr None"
    by (simp add: barcelona_def record_coordinates_def dict_get_def lit_def)
  have p: "provider_raises failing_geocoder (lit ''Barcelona'') None (lit ''es'') False 0
     (Raised (lit ''quota exceeded''))"
    by (simp add: provider_raises_def failing_geocoder_def strip_Nil_iff lit_def isspace_def)
  from a c p barcelona_incomplete show ?thesis by (simp add: completion_raises_def)
qed

theorem process_address_batch_provider_failures_witness:
  "sleeps failing_geocoder (PFloat (Finite 1)) \<and> shaped failing_geocoder \<and>
   wellformed ascii_interp barcelona \<and> wellformed ascii_interp greenwich \<and>
   length (fst (process_address_batch ascii_interp failing_geocoder [barcelona, greenwich]
                  (PFloat (Finite 1)) (lit ''es'') False False 0)) = 2 \<and>
   processed ascii_interp failing_geocoder (lit ''es'') False barcelona 0
     (fst (process_address_batch ascii_interp failing_geocoder [barcelona, greenwich]
             (PFloat (Finite 1)) (lit ''es'') False False 0) ! 0) \<and>
   processed ascii_interp failing_geocoder (lit ''es'') False greenwich
     (process_worlds ascii_interp failing_geocoder (PFloat (Finite 1)) (lit ''es'') False False
        [barcelona, greenwich] 0 ! 1)
     (fst (process_address_batch ascii_interp failing_geocoder [barcelona, greenwich]
             (PFloat (Finite 1)) (lit ''es'') False False 0) ! 1)"
proof -
  let ?delay = "PFloat (Finite 1)"
  have wf: "\<forall>d \<in> set [barcelona, greenwich]. wellformed ascii_interp d"
    by (simp add: barcelona_wellformed greenwich_wellformed)
  note t = process_address_batch_provider_failures[OF failing_sleeps failing_shaped wf,
      of "lit ''es''" False False 0]
  from t have len: "length (fst (process_address_batch ascii_interp failing_geocoder
      [barcelona, greenwich] ?delay (lit ''es'') False False 0)) = 2"
    by simp
  have w0: "process_worlds ascii_interp failing_geocoder ?delay (lit ''es'') False False
              [barcelona, greenwich] 0 ! 0 = 0"
    by simp
  have "(0::nat) < length [barcelona, greenwich]" by simp
  with t have "processed ascii_interp failing_geocoder (lit ''es'') False ([barcelona, greenwich] ! 0)
     (process_worlds ascii_interp failing_geocoder ?delay (lit ''es'') False False
        [barcelona, greenwich] 0 ! 0)
     (fst (process_address_batch ascii_interp failing_geocoder [barcelona, greenwich] ?delay
             (lit ''es'') False False 0) ! 0)"
    by blast
  then have p0: "processed ascii_interp failing_geocoder (lit ''es'') False barcelona 0
     (fst (process_address_batch ascii_interp failing_geocoder [barcelona, greenwich] ?delay
             (lit ''es'') False False 0) ! 0)"
    unfolding w0 by simp
  have "(1::nat) < length [barcelona, greenwich]" by simp
  with t have "processed ascii_interp failing_geocoder (lit ''es'') False ([barcelona, greenwich] ! 1)
     (process_worlds ascii_interp failing_geocoder ?delay (lit ''es'') False False
        [barcelona, greenwich] 0 ! 1)
     (fst (process_address_batch ascii_interp failing_geocoder [barcelona, greenwich] ?delay
             (lit ''es'') False False 0) ! 1)"
    by blast
  then have p1: "processed ascii_interp failing_geocoder (lit ''es'') False greenwich
     (process_worlds ascii_interp failing_geocoder ?delay (lit ''es'') False False
        [barcelona, greenwich] 0 ! 1)
     (fst (process_address_batch ascii_interp failing_geocoder [barcelona, greenwich] ?delay
             (lit ''es'') False False 0) ! 1)"
    by simp
  from failing_sleeps failing_shaped barcelona_wellformed greenwich_wellformed len p0 p1
  show ?thesis by blast
qed

text \<open>
  A batch of one record and a provider that is down: the provider call of the record raises,
  one record comes back, and it bears the message under \<open>error\<close> and no
  \<open>processing_error\<close>. So none of the records bears \<open>processing_error\<close>, where the claim
  says exactly one.
\<close>

theorem process_address_batch_counterexample:
  "completion_raises ascii_interp failing_geocoder barcelona (lit ''es'') False 0
     (Raised (lit ''quota exceeded'')) \<and>
   length (fst (process_address_batch ascii_interp failing_geocoder [barcelona] (PFloat (Finite 1))
                  (lit ''es'') False False 0)) = 1 \<and>
   dict_get (hd (fst (process_address_batch ascii_interp failing_geocoder [barcelona] (PFloat (Finite 1))
                  (lit ''es'') False False 0))) (lit ''processing_error'') = None \<and>
   dict_get (hd (fst (process_address_batch ascii_interp failing_geocoder [barcelona] (PFloat (Finite 1))
                  (lit ''es'') False False 0))) (lit ''error'') = Some (PStr (lit ''quota exceeded''))"
proof -
  let ?out = "fst (process_address_batch ascii_interp failing_geocoder [barcelona] (PFloat (Finite 1))
                  (lit ''es'') False False 0)"
  have wf: "\<forall>d \<in> set [barcelona]. wellformed ascii_interp d"
    by (simp add: barcelona_wellformed)
  from process_from_wellformed[OF failing_sleeps failing_shaped wf, of "lit ''es''" False False 0]
  have len: "length ?out = 1"
    and p: "processed ascii_interp failing_geocoder (lit ''es'') False barcelona 0 (?out ! 0)"
    by (simp_all add: process_address_batch_def)
  from len have hd: "hd ?out = ?out ! 0" by (cases ?out) simp_all
  from p barcelona_raises have "dict_get (?out ! 0) (lit ''processing_error'') = None"
    "dict_get (?out ! 0) (lit ''error'') =
       Some (PStr (exn_str ascii_interp (Raised (lit ''quota exceeded''))))"
    unfolding processed_def by blast+
  with len hd barcelona_raises show ?thesis by (simp add: exn_str_def)
qed

end
